theory Spec2Isabelle
  imports Complex_Main "HOL-Library.Word"
begin

unbundle bit_operations_syntax

section \<open>The SHT3x driver (package sht3x), embedded\<close>

text \<open>
  The driver talks to the sensor through an I2C handle and keeps a small amount of state in
  the struct \<open>SHT3X\<close>. The embedding threads two things through every method: the struct
  and the log of everything the method asked of the outside world (frames written, reads
  requested, sleeps, cancellable waits). What the outside world answers is given by an
  environment, a record of functions of the log so far; the driver's methods are
  functions of the environment.
\<close>

type_synonym byte = "8 word"
type_synonym uint16 = "16 word"

text \<open>\<open>time.Duration\<close>: a count of nanoseconds.\<close>

type_synonym duration = int

definition Microsecond :: duration where "Microsecond = 1000"
definition Millisecond :: duration where "Millisecond = 1000 * Microsecond"

subsection \<open>Command byte sequences\<close>

definition CMD_SINGLE_MEASURE_HIGH_CSE :: "byte list" where "CMD_SINGLE_MEASURE_HIGH_CSE = [0x2C, 0x06]"
definition CMD_SINGLE_MEASURE_MEDIUM_CSE :: "byte list" where "CMD_SINGLE_MEASURE_MEDIUM_CSE = [0x2C, 0x0D]"
definition CMD_SINGLE_MEASURE_LOW_CSE :: "byte list" where "CMD_SINGLE_MEASURE_LOW_CSE = [0x2C, 0x10]"
definition CMD_SINGLE_MEASURE_HIGH :: "byte list" where "CMD_SINGLE_MEASURE_HIGH = [0x24, 0x00]"
definition CMD_SINGLE_MEASURE_MEDIUM :: "byte list" where "CMD_SINGLE_MEASURE_MEDIUM = [0x24, 0x0B]"
definition CMD_SINGLE_MEASURE_LOW :: "byte list" where "CMD_SINGLE_MEASURE_LOW = [0x24, 0x16]"

definition CMD_PERIOD_MEASURE_05MPS_HIGH :: "byte list" where "CMD_PERIOD_MEASURE_05MPS_HIGH = [0x20, 0x32]"
definition CMD_PERIOD_MEASURE_05MPS_MEDIUM :: "byte list" where "CMD_PERIOD_MEASURE_05MPS_MEDIUM = [0x20, 0x24]"
definition CMD_PERIOD_MEASURE_05MPS_LOW :: "byte list" where "CMD_PERIOD_MEASURE_05MPS_LOW = [0x20, 0x2F]"
definition CMD_PERIOD_MEASURE_1MPS_HIGH :: "byte list" where "CMD_PERIOD_MEASURE_1MPS_HIGH = [0x21, 0x30]"
definition CMD_PERIOD_MEASURE_1MPS_MEDIUM :: "byte list" where "CMD_PERIOD_MEASURE_1MPS_MEDIUM = [0x21, 0x26]"
definition CMD_PERIOD_MEASURE_1MPS_LOW :: "byte list" where "CMD_PERIOD_MEASURE_1MPS_LOW = [0x21, 0x2D]"
definition CMD_PERIOD_MEASURE_2MPS_HIGH :: "byte list" where "CMD_PERIOD_MEASURE_2MPS_HIGH = [0x22, 0x36]"
definition CMD_PERIOD_MEASURE_2MPS_MEDIUM :: "byte list" where "CMD_PERIOD_MEASURE_2MPS_MEDIUM = [0x22, 0x20]"
definition CMD_PERIOD_MEASURE_2MPS_LOW :: "byte list" where "CMD_PERIOD_MEASURE_2MPS_LOW = [0x22, 0x2B]"
definition CMD_PERIOD_MEASURE_4MPS_HIGH :: "byte list" where "CMD_PERIOD_MEASURE_4MPS_HIGH = [0x23, 0x34]"
definition CMD_PERIOD_MEASURE_4MPS_MEDIUM :: "byte list" where "CMD_PERIOD_MEASURE_4MPS_MEDIUM = [0x23, 0x22]"
definition CMD_PERIOD_MEASURE_4MPS_LOW :: "byte list" where "CMD_PERIOD_MEASURE_4MPS_LOW = [0x23, 0x29]"
definition CMD_PERIOD_MEASURE_10MPS_HIGH :: "byte list" where "CMD_PERIOD_MEASURE_10MPS_HIGH = [0x27, 0x37]"
definition CMD_PERIOD_MEASURE_10MPS_MEDIUM :: "byte list" where "CMD_PERIOD_MEASURE_10MPS_MEDIUM = [0x27, 0x21]"
definition CMD_PERIOD_MEASURE_10MPS_LOW :: "byte list" where "CMD_PERIOD_MEASURE_10MPS_LOW = [0x27, 0x2A]"

definition CMD_ALERT_READ_HIGH_SET :: "byte list" where "CMD_ALERT_READ_HIGH_SET = [0xE1, 0x1F]"
definition CMD_ALERT_READ_HIGH_CLEAR :: "byte list" where "CMD_ALERT_READ_HIGH_CLEAR = [0xE1, 0x14]"
definition CMD_ALERT_READ_LOW_CLEAR :: "byte list" where "CMD_ALERT_READ_LOW_CLEAR = [0xE1, 0x09]"
definition CMD_ALERT_READ_LOW_SET :: "byte list" where "CMD_ALERT_READ_LOW_SET = [0xE1, 0x02]"
definition CMD_ALERT_WRITE_HIGH_SET :: "byte list" where "CMD_ALERT_WRITE_HIGH_SET = [0x61, 0x1D]"
definition CMD_ALERT_WRITE_HIGH_CLEAR :: "byte list" where "CMD_ALERT_WRITE_HIGH_CLEAR = [0x61, 0x16]"
definition CMD_ALERT_WRITE_LOW_CLEAR :: "byte list" where "CMD_ALERT_WRITE_LOW_CLEAR = [0x61, 0x0B]"
definition CMD_ALERT_WRITE_LOW_SET :: "byte list" where "CMD_ALERT_WRITE_LOW_SET = [0x61, 0x00]"

definition CMD_ENABLE_HEATER :: "byte list" where "CMD_ENABLE_HEATER = [0x30, 0x6D]"
definition CMD_DISABLE_HEATER :: "byte list" where "CMD_DISABLE_HEATER = [0x30, 0x66]"

definition CMD_READ_STATUS_REG :: "byte list" where "CMD_READ_STATUS_REG = [0xF3, 0x2D]"
definition CMD_CLEAR_STATUS_REG :: "byte list" where "CMD_CLEAR_STATUS_REG = [0x30, 0x41]"

definition CMD_PERIOD_FETCH :: "byte list" where "CMD_PERIOD_FETCH = [0xE0, 0x00]"
definition CMD_ART :: "byte list" where "CMD_ART = [0x2B, 0x32]"
definition CMD_BREAK :: "byte list" where "CMD_BREAK = [0x30, 0x93]"
definition CMD_RESET :: "byte list" where "CMD_RESET = [0x30, 0xA2]"

subsection \<open>MeasureRepeatability and PeriodicMeasure\<close>

text \<open>
  Both are named \<open>int\<close> types in the source, with constants \<open>iota + 1\<close>. A value of
  the type need not be one of the constants: the zero value of a fresh struct is 0.
\<close>

type_synonym MeasureRepeatability = int

definition RepeatabilityLow :: MeasureRepeatability where "RepeatabilityLow = 1"
definition RepeatabilityMedium :: MeasureRepeatability where "RepeatabilityMedium = 2"
definition RepeatabilityHigh :: MeasureRepeatability where "RepeatabilityHigh = 3"

definition GetMeasureTime :: "MeasureRepeatability \<Rightarrow> duration" where
  "GetMeasureTime v =
     (if v = RepeatabilityLow then 4500 * Microsecond
      else if v = RepeatabilityMedium then 6500 * Microsecond
      else if v = RepeatabilityHigh then 15500 * Microsecond
      else 0)"

type_synonym PeriodicMeasure = int

definition PeriodicHalfMPS :: PeriodicMeasure where "PeriodicHalfMPS = 1"
definition Periodic1MPS :: PeriodicMeasure where "Periodic1MPS = 2"
definition Periodic2MPS :: PeriodicMeasure where "Periodic2MPS = 3"
definition Periodic4MPS :: PeriodicMeasure where "Periodic4MPS = 4"
definition Periodic10MPS :: PeriodicMeasure where "Periodic10MPS = 5"

definition GetWaitDuration :: "PeriodicMeasure \<Rightarrow> duration" where
  "GetWaitDuration v =
     (if v = PeriodicHalfMPS then Millisecond * 2000
      else if v = Periodic1MPS then Millisecond * 1000
      else if v = Periodic2MPS then Millisecond * 500
      else if v = Periodic4MPS then Millisecond * 250
      else if v = Periodic10MPS then Millisecond * 100
      else 0)"

subsection \<open>StatusRegFlag\<close>

definition ALERT_PENDING :: uint16 where "ALERT_PENDING = 0x8000"
definition HEATER_ENABLED :: uint16 where "HEATER_ENABLED = 0x2000"
definition HUMIDITY_ALERT :: uint16 where "HUMIDITY_ALERT = 0x0800"
definition TEMPERATURE_ALERT :: uint16 where "TEMPERATURE_ALERT = 0x0400"
definition RESET_DETECTED :: uint16 where "RESET_DETECTED = 0x0010"
definition COMMAND_FAILED :: uint16 where "COMMAND_FAILED = 0x0002"
definition WRITE_DATA_CRC_FAILED :: uint16 where "WRITE_DATA_CRC_FAILED = 0x0001"

subsection \<open>Errors, the log and the environment\<close>

datatype bus_error = BusNotAcknowledging | BusIOError

datatype ctx_error = Canceled | DeadlineExceeded

text \<open>
  The driver's \<open>error\<close> values: an error of the transport passed through, the two
  \<open>errors.New\<close> of the driver (checksum mismatch, with the received and the calculated
  checksum; no measurement initiated), the context's \<open>Err()\<close>, and the run-time panic
  of an index out of range.
\<close>

datatype error =
    Bus bus_error
  | ChecksumMismatch byte byte
  | NoActiveAcquisition
  | Ctx ctx_error
  | IndexOutOfRange

text \<open>
  One entry of the log for every request to the outside world, oldest first:
  \<open>i2c.WriteBytes\<close> of a frame, a read of so many bytes, \<open>time.Sleep\<close>, and the
  \<open>select\<close> between \<open>ctx.Done()\<close> and \<open>time.After\<close>.
\<close>

datatype event =
    BusWrite "byte list"
  | BusRead nat
  | Sleep duration
  | Wait duration

type_synonym trace = "event list"

text \<open>
  The environment answers each request, given the log before it. \<open>wait_result\<close> is the
  outcome of the \<open>select\<close>: \<open>None\<close> when the timer fires, the context's error when
  \<open>ctx.Done()\<close> is taken. \<open>calcCRC_SHT3X\<close> is declared in a file of the package that is
  not among the sources at hand, so it is a parameter as well. \<open>uint16_out_of_range\<close>
  is the result of converting to \<open>uint16\<close> a float that \<open>uint16\<close> cannot represent,
  which Go leaves to the implementation.
\<close>

record env =
  write_result :: "trace \<Rightarrow> byte list \<Rightarrow> bus_error option"
  read_result :: "trace \<Rightarrow> nat \<Rightarrow> bus_error + byte list"
  wait_result :: "trace \<Rightarrow> duration \<Rightarrow> ctx_error option"
  calcCRC_SHT3X :: "byte \<Rightarrow> byte list \<Rightarrow> byte"
  uint16_out_of_range :: "rat \<Rightarrow> uint16"

text \<open>A \<open>[]byte\<close> is \<open>nil\<close> or a sequence of bytes; written to the bus, \<open>nil\<close> is empty.\<close>

type_synonym bytes = "byte list option"

definition frame_of :: "bytes \<Rightarrow> byte list" where
  "frame_of cmd = (case cmd of None \<Rightarrow> [] | Some bs \<Rightarrow> bs)"

definition WriteBytes :: "env \<Rightarrow> trace \<Rightarrow> bytes \<Rightarrow> bus_error option \<times> trace" where
  "WriteBytes e tr cmd =
     (write_result e tr (frame_of cmd), tr @ [BusWrite (frame_of cmd)])"

definition sleep :: "trace \<Rightarrow> duration \<Rightarrow> trace" where
  "sleep tr d = tr @ [Sleep d]"

text \<open>
  Modelled from the spec: \<open>readDataToStruct\<close> is not among the sources. The spec's
  \<open>readBytes(count)\<close> reads a fixed-size response frame or fails; the frame fills a
  buffer of \<open>byteCount\<close> zero bytes from the front.
\<close>

definition readDataToStruct :: "env \<Rightarrow> trace \<Rightarrow> nat \<Rightarrow> (bus_error + byte list) \<times> trace" where
  "readDataToStruct e tr byteCount =
     (case read_result e tr byteCount of
        Inl err \<Rightarrow> (Inl err, tr @ [BusRead byteCount])
      | Inr bs \<Rightarrow> (Inr (take byteCount (bs @ replicate byteCount 0)), tr @ [BusRead byteCount]))"

text \<open>
  Modelled from the spec: \<open>getU16BE\<close> is not among the sources; the 16-bit code of a
  block is its two data bytes, most significant first.
\<close>

definition getU16BE :: "byte list \<Rightarrow> uint16" where
  "getU16BE buf = push_bit 8 (ucast (buf ! 0)) + ucast (buf ! 1)"

subsection \<open>The sensor struct\<close>

record SHT3X =
  lastStatusReg :: "uint16 option"
  lastCmd :: bytes
  lastPeriodic :: PeriodicMeasure
  lastPrecision :: MeasureRepeatability

definition NewSHT3X :: SHT3X where
  "NewSHT3X = \<lparr>lastStatusReg = None, lastCmd = None, lastPeriodic = 0, lastPrecision = 0\<rparr>"

subsection \<open>Reading blocks with their checksums\<close>

text \<open>The buffer as an array of structs of two data bytes and a checksum byte.\<close>

fun blocks_of :: "byte list \<Rightarrow> (byte list \<times> byte) list" where
  "blocks_of (d0 # d1 # c # rest) = ([d0, d1], c) # blocks_of rest"
| "blocks_of _ = []"

fun check_blocks :: "env \<Rightarrow> (byte list \<times> byte) list \<Rightarrow> error + uint16 list" where
  "check_blocks e [] = Inr []"
| "check_blocks e ((d, crc) # rest) =
     (let calcCRC = calcCRC_SHT3X e 0xFF d in
      if calcCRC \<noteq> crc then Inl (ChecksumMismatch crc calcCRC)
      else (case check_blocks e rest of
              Inl err \<Rightarrow> Inl err
            | Inr results \<Rightarrow> Inr (getU16BE d # results)))"

definition readDataWithCRCCheck :: "env \<Rightarrow> trace \<Rightarrow> nat \<Rightarrow> (error + uint16 list) \<times> trace" where
  "readDataWithCRCCheck e tr blockCount =
     (case readDataToStruct e tr (3 * blockCount) of
        (Inl err, tr') \<Rightarrow> (Inl (Bus err), tr')
      | (Inr buf, tr') \<Rightarrow> (check_blocks e (blocks_of buf), tr'))"

subsection \<open>float32\<close>

text \<open>
  A finite \<open>float32\<close> is represented by the rational number it denotes, and an operation
  on floats is the exact operation followed by rounding to the nearest float, ties to the
  even significand (IEEE 754 binary32: 24 significant bits, the least exponent of the last
  place is \<open>-149\<close>). Infinities and NaN are not represented: every value the conversions
  below compute from a 16-bit code is below \<open>2^24\<close> in magnitude.
\<close>

type_synonym float32 = rat

function bitlength :: "int \<Rightarrow> nat" where
  "bitlength n = (if n \<le> 0 then 0 else Suc (bitlength (n div 2)))"
  by pat_completeness auto
termination
  by (relation "measure nat") auto

declare bitlength.simps [simp del]

text \<open>
  The number of binary digits of a positive integer, and the exponent of the leading bit of
  a rational: \<open>2 powi ilog2 x \<le> \<bar>x\<bar> < 2 powi (ilog2 x + 1)\<close>.
\<close>

definition ilog2 :: "rat \<Rightarrow> int" where
  "ilog2 x =
     (if 1 \<le> \<bar>x\<bar> then int (bitlength \<lfloor>\<bar>x\<bar>\<rfloor>) - 1
      else - int (bitlength (\<lceil>1 / \<bar>x\<bar>\<rceil> - 1)))"

definition round_even :: "rat \<Rightarrow> int" where
  "round_even q =
     (let f = \<lfloor>q\<rfloor>; r = q - of_int f in
      if r < 1 / 2 then f
      else if 1 / 2 < r then f + 1
      else if even f then f else f + 1)"

definition round_binary :: "nat \<Rightarrow> int \<Rightarrow> rat \<Rightarrow> rat" where
  "round_binary p emin x =
     (if x = 0 then 0
      else (let e = max (ilog2 x - (int p - 1)) emin in
            of_int (round_even (x / (2 powi e))) * (2 powi e)))"

definition f32 :: "rat \<Rightarrow> float32" where
  "f32 x = round_binary 24 (- 149) x"

definition f32_add :: "float32 \<Rightarrow> float32 \<Rightarrow> float32" where "f32_add a b = f32 (a + b)"
definition f32_sub :: "float32 \<Rightarrow> float32 \<Rightarrow> float32" where "f32_sub a b = f32 (a - b)"
definition f32_mul :: "float32 \<Rightarrow> float32 \<Rightarrow> float32" where "f32_mul a b = f32 (a * b)"
definition f32_div :: "float32 \<Rightarrow> float32 \<Rightarrow> float32" where "f32_div a b = f32 (a / b)"

text \<open>The conversion \<open>float32(u)\<close> of a \<open>uint16\<close>.\<close>

definition float32_of_uint16 :: "uint16 \<Rightarrow> float32" where
  "float32_of_uint16 u = f32 (of_int (uint u))"

text \<open>
  The conversion \<open>uint16(x)\<close> of a float: the fraction is discarded; where \<open>uint16\<close>
  cannot represent the result, the environment gives it.
\<close>

definition uint16_of_float32 :: "env \<Rightarrow> float32 \<Rightarrow> uint16" where
  "uint16_of_float32 e x =
     (let t = (if 0 \<le> x then \<lfloor>x\<rfloor> else \<lceil>x\<rceil>) in
      if 0 \<le> t \<and> t < 65536 then word_of_int t else uint16_out_of_range e x)"

text \<open>Rounding to an integer, halves away from zero.\<close>

definition round_away :: "rat \<Rightarrow> int" where
  "round_away q = (if 0 \<le> q then \<lfloor>q + 1 / 2\<rfloor> else - \<lfloor>- q + 1 / 2\<rfloor>)"

text \<open>
  Modelled from the spec: \<open>round32\<close> is not among the sources. The spec has physical
  outputs rounded to 2 decimal places, half away from zero (\<open>round2\<close>); the result is a
  \<open>float32\<close>, the nearest one to the rounded decimal.
\<close>

definition round32 :: "float32 \<Rightarrow> nat \<Rightarrow> float32" where
  "round32 v precision = f32 (of_int (round_away (v * 10 ^ precision)) / 10 ^ precision)"

subsection \<open>Conversions between codes and physical units\<close>

definition uncompHumidityToRelativeHumidity :: "uint16 \<Rightarrow> float32" where
  "uncompHumidityToRelativeHumidity uh =
     (let rh = f32_div (f32_mul (float32_of_uint16 uh) 100) (0x10000 - 1);
          rh2 = round32 rh 2
      in rh2)"

definition uncompTemperatureToCelsius :: "uint16 \<Rightarrow> float32" where
  "uncompTemperatureToCelsius ut =
     (let temp = f32_sub (f32_div (f32_mul (float32_of_uint16 ut) 175) (0x10000 - 1)) 45;
          temp2 = round32 temp 2
      in temp2)"

definition relativeHumidityToUncompHimidity :: "env \<Rightarrow> float32 \<Rightarrow> uint16" where
  "relativeHumidityToUncompHimidity e rh =
     uint16_of_float32 e (f32_div (f32_mul rh (0x10000 - 1)) 100)"

definition celsiusToUncompTemperature :: "env \<Rightarrow> float32 \<Rightarrow> uint16" where
  "celsiusToUncompTemperature e celsius =
     uint16_of_float32 e (f32_div (f32_mul (f32_add celsius 45) (0x10000 - 1)) 175)"

subsection \<open>Status register\<close>

definition ReadStatusReg :: "env \<Rightarrow> SHT3X \<Rightarrow> trace \<Rightarrow> (error + uint16) \<times> SHT3X \<times> trace" where
  "ReadStatusReg e v tr =
     (case lastStatusReg v of
        None \<Rightarrow>
          (case WriteBytes e tr (Some CMD_READ_STATUS_REG) of
             (Some err, tr1) \<Rightarrow> (Inl (Bus err), v, tr1)
           | (None, tr1) \<Rightarrow>
               (case readDataWithCRCCheck e tr1 1 of
                  (Inl err, tr2) \<Rightarrow> (Inl err, v, tr2)
                | (Inr reg, tr2) \<Rightarrow>
                    (case reg of
                       [] \<Rightarrow> (Inl IndexOutOfRange, v, tr2)
                     | r0 # _ \<Rightarrow> (Inr r0, v\<lparr>lastStatusReg := Some r0\<rparr>, tr2))))
      | Some r \<Rightarrow> (Inr r, v, tr))"

definition Reset :: "env \<Rightarrow> SHT3X \<Rightarrow> trace \<Rightarrow> error option \<times> SHT3X \<times> trace" where
  "Reset e v tr =
     (let cmd = Some CMD_RESET in
      case WriteBytes e tr cmd of
        (Some err, tr1) \<Rightarrow> (Some (Bus err), v, tr1)
      | (None, tr1) \<Rightarrow> (None, v\<lparr>lastCmd := cmd\<rparr>, sleep tr1 (Microsecond * 1500)))"

definition SetHeaterStatus :: "env \<Rightarrow> SHT3X \<Rightarrow> trace \<Rightarrow> bool \<Rightarrow> error option \<times> SHT3X \<times> trace" where
  "SetHeaterStatus e v tr enableHeater =
     (let cmd = (if enableHeater then Some CMD_ENABLE_HEATER else Some CMD_DISABLE_HEATER) in
      case WriteBytes e tr cmd of
        (Some err, tr1) \<Rightarrow> (Some (Bus err), v, tr1)
      | (None, tr1) \<Rightarrow> (None, v\<lparr>lastCmd := cmd\<rparr>, sleep tr1 (Millisecond * 1)))"

text \<open>
  The seven accessors differ in the flag they test: each clears the cached status word,
  reads the status register and tests one bit.
\<close>

definition status_flag :: "env \<Rightarrow> SHT3X \<Rightarrow> trace \<Rightarrow> uint16 \<Rightarrow> (error + bool) \<times> SHT3X \<times> trace" where
  "status_flag e v tr flag =
     (case ReadStatusReg e (v\<lparr>lastStatusReg := None\<rparr>) tr of
        (Inl err, v1, tr1) \<Rightarrow> (Inl err, v1, tr1)
      | (Inr ur, v1, tr1) \<Rightarrow> (Inr (ur AND flag \<noteq> 0), v1, tr1))"

definition GetHeaterStatus :: "env \<Rightarrow> SHT3X \<Rightarrow> trace \<Rightarrow> (error + bool) \<times> SHT3X \<times> trace" where
  "GetHeaterStatus e v tr = status_flag e v tr HEATER_ENABLED"

definition GetAlertPendingStatus :: "env \<Rightarrow> SHT3X \<Rightarrow> trace \<Rightarrow> (error + bool) \<times> SHT3X \<times> trace" where
  "GetAlertPendingStatus e v tr = status_flag e v tr ALERT_PENDING"

definition GetHumidityAlertStatus :: "env \<Rightarrow> SHT3X \<Rightarrow> trace \<Rightarrow> (error + bool) \<times> SHT3X \<times> trace" where
  "GetHumidityAlertStatus e v tr = status_flag e v tr HUMIDITY_ALERT"

definition GetTemperatureAlertStatus :: "env \<Rightarrow> SHT3X \<Rightarrow> trace \<Rightarrow> (error + bool) \<times> SHT3X \<times> trace" where
  "GetTemperatureAlertStatus e v tr = status_flag e v tr TEMPERATURE_ALERT"

definition CheckResetDetected :: "env \<Rightarrow> SHT3X \<Rightarrow> trace \<Rightarrow> (error + bool) \<times> SHT3X \<times> trace" where
  "CheckResetDetected e v tr = status_flag e v tr RESET_DETECTED"

definition CheckCommandFailed :: "env \<Rightarrow> SHT3X \<Rightarrow> trace \<Rightarrow> (error + bool) \<times> SHT3X \<times> trace" where
  "CheckCommandFailed e v tr = status_flag e v tr COMMAND_FAILED"

definition CheckWrittenChecksumIsIncorrect :: "env \<Rightarrow> SHT3X \<Rightarrow> trace \<Rightarrow> (error + bool) \<times> SHT3X \<times> trace" where
  "CheckWrittenChecksumIsIncorrect e v tr = status_flag e v tr WRITE_DATA_CRC_FAILED"

subsection \<open>Single-shot measurement\<close>

definition initiateMeasure ::
  "env \<Rightarrow> SHT3X \<Rightarrow> trace \<Rightarrow> bytes \<Rightarrow> MeasureRepeatability \<Rightarrow> error option \<times> SHT3X \<times> trace" where
  "initiateMeasure e v tr cmd precision =
     (case WriteBytes e tr cmd of
        (Some err, tr1) \<Rightarrow> (Some (Bus err), v, tr1)
      | (None, tr1) \<Rightarrow>
          (let pause = GetMeasureTime precision in
           (None, v\<lparr>lastCmd := cmd\<rparr>, sleep tr1 pause)))"

text \<open>The pair \<open>data[0], data[1]\<close> of a slice, or the panic of the index.\<close>

definition index01 :: "uint16 list \<Rightarrow> error + uint16 \<times> uint16" where
  "index01 data = (if length data < 2 then Inl IndexOutOfRange else Inr (data ! 0, data ! 1))"

definition ReadUncompTemperatureAndHumidity ::
  "env \<Rightarrow> SHT3X \<Rightarrow> trace \<Rightarrow> MeasureRepeatability \<Rightarrow> (error + uint16 \<times> uint16) \<times> SHT3X \<times> trace" where
  "ReadUncompTemperatureAndHumidity e v tr precision =
     (let cmd = (if precision = RepeatabilityLow then Some CMD_SINGLE_MEASURE_LOW
                 else if precision = RepeatabilityMedium then Some CMD_SINGLE_MEASURE_MEDIUM
                 else if precision = RepeatabilityHigh then Some CMD_SINGLE_MEASURE_HIGH
                 else None) in
      case initiateMeasure e v tr cmd precision of
        (Some err, v1, tr1) \<Rightarrow> (Inl err, v1, tr1)
      | (None, v1, tr1) \<Rightarrow>
          (case readDataWithCRCCheck e tr1 2 of
             (Inl err, tr2) \<Rightarrow> (Inl err, v1, tr2)
           | (Inr data, tr2) \<Rightarrow> (index01 data, v1, tr2)))"

definition ReadTemperatureAndRelativeHumidity ::
  "env \<Rightarrow> SHT3X \<Rightarrow> trace \<Rightarrow> MeasureRepeatability \<Rightarrow> (error + float32 \<times> float32) \<times> SHT3X \<times> trace" where
  "ReadTemperatureAndRelativeHumidity e v tr precision =
     (case ReadUncompTemperatureAndHumidity e v tr precision of
        (Inl err, v1, tr1) \<Rightarrow> (Inl err, v1, tr1)
      | (Inr (ut, urh), v1, tr1) \<Rightarrow>
          (let temp = uncompTemperatureToCelsius ut;
               rh = uncompHumidityToRelativeHumidity urh
           in (Inr (temp, rh), v1, tr1)))"

subsection \<open>Periodic acquisition\<close>

definition getPeriodicMeasurementCommand :: "PeriodicMeasure \<Rightarrow> MeasureRepeatability \<Rightarrow> bytes" where
  "getPeriodicMeasurementCommand period precision =
     (if period = PeriodicHalfMPS then
        (if precision = RepeatabilityLow then Some CMD_PERIOD_MEASURE_05MPS_LOW
         else if precision = RepeatabilityMedium then Some CMD_PERIOD_MEASURE_05MPS_MEDIUM
         else if precision = RepeatabilityHigh then Some CMD_PERIOD_MEASURE_05MPS_HIGH
         else None)
      else if period = Periodic1MPS then
        (if precision = RepeatabilityLow then Some CMD_PERIOD_MEASURE_1MPS_LOW
         else if precision = RepeatabilityMedium then Some CMD_PERIOD_MEASURE_1MPS_MEDIUM
         else if precision = RepeatabilityHigh then Some CMD_PERIOD_MEASURE_1MPS_HIGH
         else None)
      else if period = Periodic2MPS then
        (if precision = RepeatabilityLow then Some CMD_PERIOD_MEASURE_2MPS_LOW
         else if precision = RepeatabilityMedium then Some CMD_PERIOD_MEASURE_2MPS_MEDIUM
         else if precision = RepeatabilityHigh then Some CMD_PERIOD_MEASURE_2MPS_HIGH
         else None)
      else if period = Periodic4MPS then
        (if precision = RepeatabilityLow then Some CMD_PERIOD_MEASURE_4MPS_LOW
         else if precision = RepeatabilityMedium then Some CMD_PERIOD_MEASURE_4MPS_MEDIUM
         else if precision = RepeatabilityHigh then Some CMD_PERIOD_MEASURE_4MPS_HIGH
         else None)
      else if period = Periodic10MPS then
        (if precision = RepeatabilityLow then Some CMD_PERIOD_MEASURE_10MPS_LOW
         else if precision = RepeatabilityMedium then Some CMD_PERIOD_MEASURE_10MPS_MEDIUM
         else if precision = RepeatabilityHigh then Some CMD_PERIOD_MEASURE_10MPS_HIGH
         else None)
      else None)"

definition StartPeriodicTemperatureAndHumidityMeasure ::
  "env \<Rightarrow> SHT3X \<Rightarrow> trace \<Rightarrow> PeriodicMeasure \<Rightarrow> MeasureRepeatability \<Rightarrow> error option \<times> SHT3X \<times> trace" where
  "StartPeriodicTemperatureAndHumidityMeasure e v tr period precision =
     (let cmd = getPeriodicMeasurementCommand period precision in
      case initiateMeasure e v tr cmd precision of
        (Some err, v1, tr1) \<Rightarrow> (Some err, v1, tr1)
      | (None, v1, tr1) \<Rightarrow>
          (None, v1\<lparr>lastPeriodic := period, lastPrecision := precision\<rparr>, tr1))"

definition Break :: "env \<Rightarrow> SHT3X \<Rightarrow> trace \<Rightarrow> error option \<times> SHT3X \<times> trace" where
  "Break e v tr =
     (let cmd = Some CMD_BREAK in
      case WriteBytes e tr cmd of
        (Some err, tr1) \<Rightarrow> (Some (Bus err), v, tr1)
      | (None, tr1) \<Rightarrow> (None, v\<lparr>lastCmd := cmd\<rparr>, tr1))"

text \<open>
  The retry loop of the fetch, with its variables \<open>retryCount\<close>, \<open>timeDur\<close>,
  \<open>first\<close> and \<open>data\<close> as arguments. \<open>timeDur\<close> is never negative here, so the
  truncating division of Go is \<open>div\<close>. A failed read leaves \<open>data\<close> nil.
\<close>

function fetch_loop ::
  "env \<Rightarrow> int \<Rightarrow> duration \<Rightarrow> bool \<Rightarrow> uint16 list \<Rightarrow> trace \<Rightarrow> (error + uint16 list) \<times> trace" where
  "fetch_loop e retryCount timeDur first data tr =
     (if retryCount \<ge> 0 then
        (case readDataWithCRCCheck e tr 2 of
           (Inl err, tr1) \<Rightarrow>
             (if retryCount = 0 then (Inl err, tr1)
              else (case wait_result e tr1 timeDur of
                      Some cerr \<Rightarrow> (Inl (Ctx cerr), tr1 @ [Wait timeDur])
                    | None \<Rightarrow>
                        fetch_loop e (retryCount - 1)
                          (if first then timeDur div 10 else timeDur) False []
                          (tr1 @ [Wait timeDur])))
         | (Inr d, tr1) \<Rightarrow> (Inr d, tr1))
      else (Inr data, tr))"
  by pat_completeness auto
termination
  by (relation "measure (\<lambda>(e, retryCount, timeDur, first, data, tr). nat (retryCount + 1))") auto

declare fetch_loop.simps [simp del]

text \<open>
  The parent context and the operating system's signals decide how each wait of the loop
  ends; both are in the environment's \<open>wait_result\<close>.
\<close>

definition FetchUncompTemperatureAndHumidityWithContext ::
  "env \<Rightarrow> SHT3X \<Rightarrow> trace \<Rightarrow> (error + uint16 \<times> uint16) \<times> SHT3X \<times> trace" where
  "FetchUncompTemperatureAndHumidityWithContext e v tr =
     (let cmd = getPeriodicMeasurementCommand (lastPeriodic v) (lastPrecision v) in
      if cmd = None \<or> cmd \<noteq> lastCmd v then (Inl NoActiveAcquisition, v, tr)
      else (case WriteBytes e tr (Some CMD_PERIOD_FETCH) of
              (Some err, tr1) \<Rightarrow> (Inl (Bus err), v, tr1)
            | (None, tr1) \<Rightarrow>
                (case fetch_loop e 5 (GetWaitDuration (lastPeriodic v)) True [] tr1 of
                   (Inl err, tr2) \<Rightarrow> (Inl err, v, tr2)
                 | (Inr data, tr2) \<Rightarrow> (index01 data, v, tr2))))"

definition FetchUncompTemperatureAndHumidity ::
  "env \<Rightarrow> SHT3X \<Rightarrow> trace \<Rightarrow> (error + uint16 \<times> uint16) \<times> SHT3X \<times> trace" where
  "FetchUncompTemperatureAndHumidity e v tr = FetchUncompTemperatureAndHumidityWithContext e v tr"

definition FetchTemperatureAndRelativeHumidityWithContext ::
  "env \<Rightarrow> SHT3X \<Rightarrow> trace \<Rightarrow> (error + float32 \<times> float32) \<times> SHT3X \<times> trace" where
  "FetchTemperatureAndRelativeHumidityWithContext e v tr =
     (case FetchUncompTemperatureAndHumidityWithContext e v tr of
        (Inl err, v1, tr1) \<Rightarrow> (Inl err, v1, tr1)
      | (Inr (ut, urh), v1, tr1) \<Rightarrow>
          (let temp = uncompTemperatureToCelsius ut;
               hum = uncompHumidityToRelativeHumidity urh
           in (Inr (temp, hum), v1, tr1)))"

definition FetchTemperatureAndRelativeHumidity ::
  "env \<Rightarrow> SHT3X \<Rightarrow> trace \<Rightarrow> (error + float32 \<times> float32) \<times> SHT3X \<times> trace" where
  "FetchTemperatureAndRelativeHumidity e v tr = FetchTemperatureAndRelativeHumidityWithContext e v tr"

subsection \<open>Alert limits\<close>

definition readAlertData ::
  "env \<Rightarrow> SHT3X \<Rightarrow> trace \<Rightarrow> bytes \<Rightarrow> (error + float32 \<times> float32) \<times> SHT3X \<times> trace" where
  "readAlertData e v tr cmd =
     (case WriteBytes e tr cmd of
        (Some err, tr1) \<Rightarrow> (Inl (Bus err), v, tr1)
      | (None, tr1) \<Rightarrow>
          (case readDataWithCRCCheck e tr1 1 of
             (Inl err, tr2) \<Rightarrow> (Inl err, v\<lparr>lastCmd := cmd\<rparr>, tr2)
           | (Inr data, tr2) \<Rightarrow>
               (case data of
                  [] \<Rightarrow> (Inl IndexOutOfRange, v\<lparr>lastCmd := cmd\<rparr>, tr2)
                | d0 # _ \<Rightarrow>
                    (let uh = d0 AND 0xFE00;
                         ut = push_bit 7 (d0 AND 0x01FF);
                         temp = uncompTemperatureToCelsius ut;
                         rh = uncompHumidityToRelativeHumidity uh
                     in (Inr (temp, rh), v\<lparr>lastCmd := cmd\<rparr>, tr2)))))"

definition writeAlertData ::
  "env \<Rightarrow> SHT3X \<Rightarrow> trace \<Rightarrow> bytes \<Rightarrow> float32 \<Rightarrow> float32 \<Rightarrow> error option \<times> SHT3X \<times> trace" where
  "writeAlertData e v tr cmd temp hum =
     (let ut = celsiusToUncompTemperature e temp;
          uh = relativeHumidityToUncompHimidity e hum;
          u = (uh AND 0xFE00) OR drop_bit 7 (ut AND 0xFF80);
          data = [ucast (drop_bit 8 (u AND 0xFF00)), ucast (u AND 0x00FF)];
          crc = calcCRC_SHT3X e 0xFF data;
          b = frame_of cmd @ data @ [crc]
      in case WriteBytes e tr (Some b) of
           (Some err, tr1) \<Rightarrow> (Some (Bus err), v, tr1)
         | (None, tr1) \<Rightarrow> (None, v\<lparr>lastCmd := cmd\<rparr>, sleep tr1 (Millisecond * 1)))"

definition ReadAlertHighSet :: "env \<Rightarrow> SHT3X \<Rightarrow> trace \<Rightarrow> (error + float32 \<times> float32) \<times> SHT3X \<times> trace" where
  "ReadAlertHighSet e v tr = readAlertData e v tr (Some CMD_ALERT_READ_HIGH_SET)"

definition ReadAlertHighClear :: "env \<Rightarrow> SHT3X \<Rightarrow> trace \<Rightarrow> (error + float32 \<times> float32) \<times> SHT3X \<times> trace" where
  "ReadAlertHighClear e v tr = readAlertData e v tr (Some CMD_ALERT_READ_HIGH_CLEAR)"

definition ReadAlertLowClear :: "env \<Rightarrow> SHT3X \<Rightarrow> trace \<Rightarrow> (error + float32 \<times> float32) \<times> SHT3X \<times> trace" where
  "ReadAlertLowClear e v tr = readAlertData e v tr (Some CMD_ALERT_READ_LOW_CLEAR)"

definition ReadAlertLowSet :: "env \<Rightarrow> SHT3X \<Rightarrow> trace \<Rightarrow> (error + float32 \<times> float32) \<times> SHT3X \<times> trace" where
  "ReadAlertLowSet e v tr = readAlertData e v tr (Some CMD_ALERT_READ_LOW_SET)"

definition WriteAlertHighSet :: "env \<Rightarrow> SHT3X \<Rightarrow> trace \<Rightarrow> float32 \<Rightarrow> float32 \<Rightarrow> error option \<times> SHT3X \<times> trace" where
  "WriteAlertHighSet e v tr temp hum = writeAlertData e v tr (Some CMD_ALERT_WRITE_HIGH_SET) temp hum"

definition WriteAlertHighClear :: "env \<Rightarrow> SHT3X \<Rightarrow> trace \<Rightarrow> float32 \<Rightarrow> float32 \<Rightarrow> error option \<times> SHT3X \<times> trace" where
  "WriteAlertHighClear e v tr temp hum = writeAlertData e v tr (Some CMD_ALERT_WRITE_HIGH_CLEAR) temp hum"

definition WriteAlertLowClear :: "env \<Rightarrow> SHT3X \<Rightarrow> trace \<Rightarrow> float32 \<Rightarrow> float32 \<Rightarrow> error option \<times> SHT3X \<times> trace" where
  "WriteAlertLowClear e v tr temp hum = writeAlertData e v tr (Some CMD_ALERT_WRITE_LOW_CLEAR) temp hum"

definition WriteAlertLowSet :: "env \<Rightarrow> SHT3X \<Rightarrow> trace \<Rightarrow> float32 \<Rightarrow> float32 \<Rightarrow> error option \<times> SHT3X \<times> trace" where
  "WriteAlertLowSet e v tr temp hum = writeAlertData e v tr (Some CMD_ALERT_WRITE_LOW_SET) temp hum"

subsection \<open>Sequences of calls\<close>

text \<open>
  The fields of \<open>SHT3X\<close> are not exported, so a client changes them through the exported
  methods only. A call is one exported method with its arguments.
\<close>

datatype call =
    Call_ReadStatusReg
  | Call_Reset
  | Call_SetHeaterStatus bool
  | Call_GetHeaterStatus
  | Call_GetAlertPendingStatus
  | Call_GetHumidityAlertStatus
  | Call_GetTemperatureAlertStatus
  | Call_CheckResetDetected
  | Call_CheckCommandFailed
  | Call_CheckWrittenChecksumIsIncorrect
  | Call_ReadUncompTemperatureAndHumidity MeasureRepeatability
  | Call_ReadTemperatureAndRelativeHumidity MeasureRepeatability
  | Call_StartPeriodicTemperatureAndHumidityMeasure PeriodicMeasure MeasureRepeatability
  | Call_Break
  | Call_FetchUncompTemperatureAndHumidity
  | Call_FetchUncompTemperatureAndHumidityWithContext
  | Call_FetchTemperatureAndRelativeHumidity
  | Call_FetchTemperatureAndRelativeHumidityWithContext
  | Call_ReadAlertHighSet
  | Call_ReadAlertHighClear
  | Call_ReadAlertLowClear
  | Call_ReadAlertLowSet
  | Call_WriteAlertHighSet float32 float32
  | Call_WriteAlertHighClear float32 float32
  | Call_WriteAlertLowClear float32 float32
  | Call_WriteAlertLowSet float32 float32

text \<open>The \<open>error\<close> a method returns (\<open>None\<close> for nil), whatever else it returns.\<close>

definition err_of :: "(error + 'a) \<times> SHT3X \<times> trace \<Rightarrow> error option \<times> SHT3X \<times> trace" where
  "err_of r = (case r of (Inl err, v, tr) \<Rightarrow> (Some err, v, tr) | (Inr x, v, tr) \<Rightarrow> (None, v, tr))"

fun exec :: "env \<Rightarrow> call \<Rightarrow> SHT3X \<Rightarrow> trace \<Rightarrow> error option \<times> SHT3X \<times> trace" where
  "exec e Call_ReadStatusReg v tr = err_of (ReadStatusReg e v tr)"
| "exec e Call_Reset v tr = Reset e v tr"
| "exec e (Call_SetHeaterStatus b) v tr = SetHeaterStatus e v tr b"
| "exec e Call_GetHeaterStatus v tr = err_of (GetHeaterStatus e v tr)"
| "exec e Call_GetAlertPendingStatus v tr = err_of (GetAlertPendingStatus e v tr)"
| "exec e Call_GetHumidityAlertStatus v tr = err_of (GetHumidityAlertStatus e v tr)"
| "exec e Call_GetTemperatureAlertStatus v tr = err_of (GetTemperatureAlertStatus e v tr)"
| "exec e Call_CheckResetDetected v tr = err_of (CheckResetDetected e v tr)"
| "exec e Call_CheckCommandFailed v tr = err_of (CheckCommandFailed e v tr)"
| "exec e Call_CheckWrittenChecksumIsIncorrect v tr = err_of (CheckWrittenChecksumIsIncorrect e v tr)"
| "exec e (Call_ReadUncompTemperatureAndHumidity r) v tr =
     err_of (ReadUncompTemperatureAndHumidity e v tr r)"
| "exec e (Call_ReadTemperatureAndRelativeHumidity r) v tr =
     err_of (ReadTemperatureAndRelativeHumidity e v tr r)"
| "exec e (Call_StartPeriodicTemperatureAndHumidityMeasure p r) v tr =
     StartPeriodicTemperatureAndHumidityMeasure e v tr p r"
| "exec e Call_Break v tr = Break e v tr"
| "exec e Call_FetchUncompTemperatureAndHumidity v tr =
     err_of (FetchUncompTemperatureAndHumidity e v tr)"
| "exec e Call_FetchUncompTemperatureAndHumidityWithContext v tr =
     err_of (FetchUncompTemperatureAndHumidityWithContext e v tr)"
| "exec e Call_FetchTemperatureAndRelativeHumidity v tr =
     err_of (FetchTemperatureAndRelativeHumidity e v tr)"
| "exec e Call_FetchTemperatureAndRelativeHumidityWithContext v tr =
     err_of (FetchTemperatureAndRelativeHumidityWithContext e v tr)"
| "exec e Call_ReadAlertHighSet v tr = err_of (ReadAlertHighSet e v tr)"
| "exec e Call_ReadAlertHighClear v tr = err_of (ReadAlertHighClear e v tr)"
| "exec e Call_ReadAlertLowClear v tr = err_of (ReadAlertLowClear e v tr)"
| "exec e Call_ReadAlertLowSet v tr = err_of (ReadAlertLowSet e v tr)"
| "exec e (Call_WriteAlertHighSet t h) v tr = WriteAlertHighSet e v tr t h"
| "exec e (Call_WriteAlertHighClear t h) v tr = WriteAlertHighClear e v tr t h"
| "exec e (Call_WriteAlertLowClear t h) v tr = WriteAlertLowClear e v tr t h"
| "exec e (Call_WriteAlertLowSet t h) v tr = WriteAlertLowSet e v tr t h"

fun is_start :: "call \<Rightarrow> bool" where
  "is_start (Call_StartPeriodicTemperatureAndHumidityMeasure p r) = True"
| "is_start _ = False"

text \<open>The struct and the log after a sequence of calls, one after the other.\<close>

fun run :: "env \<Rightarrow> call list \<Rightarrow> SHT3X \<Rightarrow> trace \<Rightarrow> SHT3X \<times> trace" where
  "run e [] v tr = (v, tr)"
| "run e (c # cs) v tr = (case exec e c v tr of (err, v1, tr1) \<Rightarrow> run e cs v1 tr1)"

text \<open>No call of the sequence is a start of periodic measurement that returns nil.\<close>

fun no_start_succeeds :: "env \<Rightarrow> call list \<Rightarrow> SHT3X \<Rightarrow> trace \<Rightarrow> bool" where
  "no_start_succeeds e [] v tr = True"
| "no_start_succeeds e (c # cs) v tr =
     (case exec e c v tr of
        (err, v1, tr1) \<Rightarrow>
          (if is_start c \<and> err = None then False else no_start_succeeds e cs v1 tr1))"

subsection \<open>Reading the log\<close>

fun reads :: "trace \<Rightarrow> nat" where
  "reads [] = 0"
| "reads (BusRead n # tr) = Suc (reads tr)"
| "reads (ev # tr) = reads tr"

fun waits :: "trace \<Rightarrow> duration list" where
  "waits [] = []"
| "waits (Wait d # tr) = d # waits tr"
| "waits (ev # tr) = waits tr"

text \<open>The frame written to the bus last.\<close>

fun last_written :: "trace \<Rightarrow> byte list option" where
  "last_written [] = None"
| "last_written (ev # tr) =
     (case last_written tr of
        Some frame \<Rightarrow> Some frame
      | None \<Rightarrow> (case ev of BusWrite frame \<Rightarrow> Some frame | _ \<Rightarrow> None))"

subsection \<open>Sample environments\<close>

text \<open>
  A checksum for the sample environments: the CRC-8 of the sensor's datasheet, polynomial
  \<open>0x31\<close>, most significant bit first.
\<close>

fun crc8_bits :: "nat \<Rightarrow> byte \<Rightarrow> byte" where
  "crc8_bits 0 seed = seed"
| "crc8_bits (Suc j) seed =
     crc8_bits j (if seed AND 0x80 \<noteq> 0 then push_bit 1 seed XOR 0x31 else push_bit 1 seed)"

fun crc8 :: "byte \<Rightarrow> byte list \<Rightarrow> byte" where
  "crc8 seed [] = seed"
| "crc8 seed (b # buf) = crc8 (crc8_bits 8 (seed XOR b)) buf"

text \<open>The three bytes of a block that carries the code \<open>w\<close>.\<close>

definition block :: "uint16 \<Rightarrow> byte list" where
  "block w =
     [ucast (drop_bit 8 w), ucast w, crc8 0xFF [ucast (drop_bit 8 w), ucast w]]"

text \<open>
  A bus on which every write succeeds, with the given answers to reads and the given
  outcomes of waits.
\<close>

definition sample_env ::
  "(trace \<Rightarrow> nat \<Rightarrow> bus_error + byte list) \<Rightarrow> (trace \<Rightarrow> duration \<Rightarrow> ctx_error option) \<Rightarrow> env" where
  "sample_env rd wt =
     \<lparr>write_result = (\<lambda>h f. None), read_result = rd, wait_result = wt,
      calcCRC_SHT3X = crc8, uint16_out_of_range = (\<lambda>x. 0)\<rparr>"

text \<open>A struct with a periodic session at 1 measurement per second, low repeatability.\<close>

definition running_1mps_low :: SHT3X where
  "running_1mps_low =
     \<lparr>lastStatusReg = None, lastCmd = Some CMD_PERIOD_MEASURE_1MPS_LOW,
      lastPeriodic = Periodic1MPS, lastPrecision = RepeatabilityLow\<rparr>"

text \<open>
  What \<open>lastCmd\<close> can hold apart from a periodic measurement command: nil and the
  commands that the methods other than the start of periodic measurement store there.
\<close>

definition other_commands :: "bytes set" where
  "other_commands = {None, Some CMD_RESET, Some CMD_ENABLE_HEATER, Some CMD_DISABLE_HEATER,
      Some CMD_SINGLE_MEASURE_LOW, Some CMD_SINGLE_MEASURE_MEDIUM, Some CMD_SINGLE_MEASURE_HIGH,
      Some CMD_BREAK,
      Some CMD_ALERT_READ_HIGH_SET, Some CMD_ALERT_READ_HIGH_CLEAR, Some CMD_ALERT_READ_LOW_CLEAR,
      Some CMD_ALERT_READ_LOW_SET, Some CMD_ALERT_WRITE_HIGH_SET, Some CMD_ALERT_WRITE_HIGH_CLEAR,
      Some CMD_ALERT_WRITE_LOW_CLEAR, Some CMD_ALERT_WRITE_LOW_SET}"

text \<open>
  A bus that answers every read with the block of the status word \<open>0x2000\<close> (heater
  enabled), and a struct that has this word cached.
\<close>

definition heater_on_env :: env where
  "heater_on_env = sample_env (\<lambda>h n. Inr (block 0x2000)) (\<lambda>h d. None)"

definition cached_heater_on :: SHT3X where
  "cached_heater_on = NewSHT3X\<lparr>lastStatusReg := Some 0x2000\<rparr>"

text \<open>
  A bus that answers every read with the blocks of the codes \<open>0x6000\<close> and \<open>0x4000\<close>.
\<close>

definition codes_6000_4000_env :: env where
  "codes_6000_4000_env =
     sample_env (\<lambda>h n. Inr [0x60, 0x00, crc8 0xFF [0x60, 0x00], 0x40, 0x00, crc8 0xFF [0x40, 0x00]])
       (\<lambda>h d. None)"

section \<open>Properties\<close>

lemmas CMD_single =
  CMD_SINGLE_MEASURE_HIGH_def CMD_SINGLE_MEASURE_MEDIUM_def CMD_SINGLE_MEASURE_LOW_def

lemmas CMD_period =
  CMD_PERIOD_MEASURE_05MPS_HIGH_def CMD_PERIOD_MEASURE_05MPS_MEDIUM_def
  CMD_PERIOD_MEASURE_05MPS_LOW_def CMD_PERIOD_MEASURE_1MPS_HIGH_def
  CMD_PERIOD_MEASURE_1MPS_MEDIUM_def CMD_PERIOD_MEASURE_1MPS_LOW_def
  CMD_PERIOD_MEASURE_2MPS_HIGH_def CMD_PERIOD_MEASURE_2MPS_MEDIUM_def
  CMD_PERIOD_MEASURE_2MPS_LOW_def CMD_PERIOD_MEASURE_4MPS_HIGH_def
  CMD_PERIOD_MEASURE_4MPS_MEDIUM_def CMD_PERIOD_MEASURE_4MPS_LOW_def
  CMD_PERIOD_MEASURE_10MPS_HIGH_def CMD_PERIOD_MEASURE_10MPS_MEDIUM_def
  CMD_PERIOD_MEASURE_10MPS_LOW_def

lemmas CMD_alert =
  CMD_ALERT_READ_HIGH_SET_def CMD_ALERT_READ_HIGH_CLEAR_def CMD_ALERT_READ_LOW_CLEAR_def
  CMD_ALERT_READ_LOW_SET_def CMD_ALERT_WRITE_HIGH_SET_def CMD_ALERT_WRITE_HIGH_CLEAR_def
  CMD_ALERT_WRITE_LOW_CLEAR_def CMD_ALERT_WRITE_LOW_SET_def

lemmas CMD_other =
  CMD_ENABLE_HEATER_def CMD_DISABLE_HEATER_def CMD_READ_STATUS_REG_def
  CMD_PERIOD_FETCH_def CMD_BREAK_def CMD_RESET_def

lemmas enum_defs =
  RepeatabilityLow_def RepeatabilityMedium_def RepeatabilityHigh_def
  PeriodicHalfMPS_def Periodic1MPS_def Periodic2MPS_def Periodic4MPS_def Periodic10MPS_def

subsection \<open>The bus primitives and the retry loop\<close>

lemmas sample_simps = sample_env_def running_1mps_low_def getPeriodicMeasurementCommand_def
  enum_defs GetWaitDuration_def Millisecond_def Microsecond_def

lemma reads_append: "reads (xs @ ys) = reads xs + reads ys"
  by (induction xs rule: reads.induct) auto


lemma readData_fail:
  "read_result e tr (3 * k) = Inl err \<Longrightarrow>
   readDataWithCRCCheck e tr k = (Inl (Bus err), tr @ [BusRead (3 * k)])"
  by (simp add: readDataWithCRCCheck_def readDataToStruct_def)

lemma readData_trace: "snd (readDataWithCRCCheck e tr k) = tr @ [BusRead (3 * k)]"
  by (simp add: readDataWithCRCCheck_def readDataToStruct_def split: sum.splits)

lemma fetch_loop_last:
  "readDataWithCRCCheck e tr 2 = (Inl err, tr1) \<Longrightarrow>
   fetch_loop e 0 d first data tr = (Inl err, tr1)"
  by (simp add: fetch_loop.simps)

lemma fetch_loop_retry:
  "0 < rc \<Longrightarrow> readDataWithCRCCheck e tr 2 = (Inl err, tr1) \<Longrightarrow> wait_result e tr1 d = None \<Longrightarrow>
   fetch_loop e rc d first data tr =
     fetch_loop e (rc - 1) (if first then d div 10 else d) False [] (tr1 @ [Wait d])"
  by (subst fetch_loop.simps) simp

lemma fetch_loop_cancel:
  "0 < rc \<Longrightarrow> readDataWithCRCCheck e tr 2 = (Inl err, tr1) \<Longrightarrow> wait_result e tr1 d = Some cerr \<Longrightarrow>
   fetch_loop e rc d first data tr = (Inl (Ctx cerr), tr1 @ [Wait d])"
  by (subst fetch_loop.simps) simp

lemma fetch_loop_ok:
  "0 \<le> rc \<Longrightarrow> readDataWithCRCCheck e tr 2 = (Inr d2, tr1) \<Longrightarrow>
   fetch_loop e rc d first data tr = (Inr d2, tr1)"
  by (subst fetch_loop.simps) simp

text \<open>One round of the loop, by cases.\<close>

lemma fetch_loop_cases:
  assumes "0 \<le> rc"
  obtains
    (ok) d2 where "readDataWithCRCCheck e tr 2 = (Inr d2, tr @ [BusRead 6])"
      "fetch_loop e rc d f data tr = (Inr d2, tr @ [BusRead 6])"
  | (last) err where "rc = 0" "readDataWithCRCCheck e tr 2 = (Inl err, tr @ [BusRead 6])"
      "fetch_loop e rc d f data tr = (Inl err, tr @ [BusRead 6])"
  | (cancel) err cerr where "0 < rc" "readDataWithCRCCheck e tr 2 = (Inl err, tr @ [BusRead 6])"
      "wait_result e (tr @ [BusRead 6]) d = Some cerr"
      "fetch_loop e rc d f data tr = (Inl (Ctx cerr), tr @ [BusRead 6, Wait d])"
  | (retry) err where "0 < rc" "readDataWithCRCCheck e tr 2 = (Inl err, tr @ [BusRead 6])"
      "wait_result e (tr @ [BusRead 6]) d = None"
      "fetch_loop e rc d f data tr =
         fetch_loop e (rc - 1) (if f then d div 10 else d) False [] (tr @ [BusRead 6, Wait d])"
proof -
  obtain r tr1 where rt: "readDataWithCRCCheck e tr 2 = (r, tr1)"
    by (cases "readDataWithCRCCheck e tr 2")
  have tr1: "tr1 = tr @ [BusRead 6]"
    using readData_trace [of e tr 2] rt by simp
  show thesis
  proof (cases r)
    case (Inr d2)
    with rt tr1 assms ok [of d2] fetch_loop_ok [of rc e tr d2 tr1 d f data] show thesis by simp
  next
    case (Inl err)
    show thesis
    proof (cases "rc = 0")
      case True
      with Inl rt tr1 last [of err] fetch_loop_last [of e tr err tr1 d f data] show thesis by simp
    next
      case False
      with assms have pos: "0 < rc" by simp
      show thesis
      proof (cases "wait_result e (tr @ [BusRead 6]) d")
        case None
        with Inl rt tr1 pos retry [of err]
          fetch_loop_retry [of rc e tr err tr1 d f data] show thesis by simp
      next
        case (Some cerr)
        with Inl rt tr1 pos cancel [of err cerr]
          fetch_loop_cancel [of rc e tr err tr1 d cerr f data] show thesis by simp
      qed
    qed
  qed
qed

lemma fetch_loop_neg: "rc < 0 \<Longrightarrow> fetch_loop e rc d f data tr = (Inr data, tr)"
  by (subst fetch_loop.simps) simp


lemma fetch_loop_extends_aux:
  "rc = int n \<Longrightarrow> \<exists>ext. snd (fetch_loop e rc d f data tr) = tr @ ext"
proof (induction n arbitrary: rc d f data tr)
  case 0
  then have "0 \<le> rc" by simp
  then show ?case
    by (cases rule: fetch_loop_cases [where e = e and tr = tr and d = d and f = f and data = data])
       (use 0 in auto)
next
  case (Suc n)
  then have "0 \<le> rc" by simp
  then show ?case
  proof (cases rule: fetch_loop_cases [where e = e and tr = tr and d = d and f = f and data = data])
    case (retry err)
    from Suc.prems have "rc - 1 = int n" by simp
    from Suc.IH [OF this, of "if f then d div 10 else d" False "[]" "tr @ [BusRead 6, Wait d]"]
    show ?thesis using retry(4) by auto
  qed auto
qed

lemma fetch_loop_extends: "\<exists>ext. snd (fetch_loop e rc d f data tr) = tr @ ext"
proof (cases "rc < 0")
  case True
  then show ?thesis by (simp add: fetch_loop_neg)
next
  case False
  then have "rc = int (nat rc)" by simp
  then show ?thesis by (rule fetch_loop_extends_aux)
qed

text \<open>A cancelled wait is the last entry of the log.\<close>

lemma fetch_loop_cancelled_aux:
  "rc = int n \<Longrightarrow> fetch_loop e rc d f data tr = (r, tr') \<Longrightarrow> tr' = h @ Wait w # rest \<Longrightarrow>
   length tr \<le> length h \<Longrightarrow> wait_result e h w = Some cerr \<Longrightarrow>
   rest = [] \<and> r = Inl (Ctx cerr)"
proof (induction n arbitrary: rc d f data tr)
  case 0
  then have "0 \<le> rc" by simp
  then show ?case
  proof (cases rule: fetch_loop_cases [where e = e and tr = tr and d = d and f = f and data = data])
    case (ok d2)
    with 0 have "tr @ [BusRead 6] = h @ Wait w # rest" by simp
    with 0(4) show ?thesis by (auto simp: append_eq_append_conv2 append_eq_Cons_conv Cons_eq_append_conv)
  next
    case (last err)
    with 0 have "tr @ [BusRead 6] = h @ Wait w # rest" by simp
    with 0(4) show ?thesis by (auto simp: append_eq_append_conv2 append_eq_Cons_conv Cons_eq_append_conv)
  next
    case (cancel err cerr) with 0 show ?thesis by simp
  next
    case (retry err) with 0 show ?thesis by simp
  qed
next
  case (Suc n)
  then have "0 \<le> rc" by simp
  then show ?case
  proof (cases rule: fetch_loop_cases [where e = e and tr = tr and d = d and f = f and data = data])
    case (ok d2)
    with Suc.prems have "tr @ [BusRead 6] = h @ Wait w # rest" by simp
    with Suc.prems(4) show ?thesis by (auto simp: append_eq_append_conv2 append_eq_Cons_conv Cons_eq_append_conv)
  next
    case (last err)
    with Suc.prems show ?thesis by simp
  next
    case (cancel err cerr')
    with Suc.prems have eq: "tr @ [BusRead 6, Wait d] = h @ Wait w # rest" and r: "r = Inl (Ctx cerr')" by simp_all
    from eq Suc.prems(4) have "h = tr @ [BusRead 6] \<and> w = d \<and> rest = []"
      by (auto simp: append_eq_append_conv2 append_eq_Cons_conv Cons_eq_append_conv)
    with cancel(3) Suc.prems(5) r show ?thesis by simp
  next
    case (retry err)
    let ?tr2 = "tr @ [BusRead 6, Wait d]"
    have run: "fetch_loop e (rc - 1) (if f then d div 10 else d) False [] ?tr2 = (r, tr')"
      using retry(4) Suc.prems(2) by simp
    from Suc.prems have rc: "rc - 1 = int n" by simp
    show ?thesis
    proof (cases "length ?tr2 \<le> length h")
      case True
      from Suc.IH [OF rc run Suc.prems(3) True Suc.prems(5)] show ?thesis .
    next
      case False
      obtain ext where "tr' = ?tr2 @ ext"
        using fetch_loop_extends [of e "rc - 1" "if f then d div 10 else d" False "[]" ?tr2] run by auto
      with Suc.prems(3) have eq: "tr @ BusRead 6 # Wait d # ext = h @ Wait w # rest" by simp
      from False Suc.prems(4) have "length h = length tr \<or> length h = Suc (length tr)" by auto
      then have "h = tr @ [BusRead 6] \<and> w = d"
        using eq by (auto simp: append_eq_append_conv2 append_eq_Cons_conv Cons_eq_append_conv)
      with retry(3) Suc.prems(5) show ?thesis by simp
    qed
  qed
qed

lemma fetch_cases:
  obtains
    (inactive) "FetchUncompTemperatureAndHumidityWithContext e v tr = (Inl NoActiveAcquisition, v, tr)"
  | (write_failed) err where
      "FetchUncompTemperatureAndHumidityWithContext e v tr =
         (Inl (Bus err), v, tr @ [BusWrite CMD_PERIOD_FETCH])"
  | (looped) r2 tr2 where
      "fetch_loop e 5 (GetWaitDuration (lastPeriodic v)) True [] (tr @ [BusWrite CMD_PERIOD_FETCH])
         = (r2, tr2)"
      "FetchUncompTemperatureAndHumidityWithContext e v tr =
         ((case r2 of Inl err \<Rightarrow> Inl err | Inr data \<Rightarrow> index01 data), v, tr2)"
proof -
  let ?cmd = "getPeriodicMeasurementCommand (lastPeriodic v) (lastPrecision v)"
  let ?tr1 = "tr @ [BusWrite CMD_PERIOD_FETCH]"
  let ?D = "GetWaitDuration (lastPeriodic v)"
  show thesis
  proof (cases "?cmd = None \<or> ?cmd \<noteq> lastCmd v")
    case True
    then have "FetchUncompTemperatureAndHumidityWithContext e v tr = (Inl NoActiveAcquisition, v, tr)"
      by (auto simp: FetchUncompTemperatureAndHumidityWithContext_def Let_def)
    then show thesis by (rule inactive)
  next
    case False
    then have unf: "FetchUncompTemperatureAndHumidityWithContext e v tr =
        (case WriteBytes e tr (Some CMD_PERIOD_FETCH) of
              (Some err, tr1) \<Rightarrow> (Inl (Bus err), v, tr1)
            | (None, tr1) \<Rightarrow>
                (case fetch_loop e 5 ?D True [] tr1 of
                   (Inl err, tr2) \<Rightarrow> (Inl err, v, tr2)
                 | (Inr data, tr2) \<Rightarrow> (index01 data, v, tr2)))"
      by (cases "lastCmd v") (auto simp: FetchUncompTemperatureAndHumidityWithContext_def Let_def)
    show thesis
    proof (cases "write_result e tr CMD_PERIOD_FETCH")
      case (Some err)
      with unf have "FetchUncompTemperatureAndHumidityWithContext e v tr = (Inl (Bus err), v, ?tr1)"
        by (simp add: WriteBytes_def frame_of_def)
      then show thesis by (rule write_failed)
    next
      case None
      obtain r2 tr2 where loop: "fetch_loop e 5 ?D True [] ?tr1 = (r2, tr2)"
        by (cases "fetch_loop e 5 ?D True [] ?tr1")
      with unf None have "FetchUncompTemperatureAndHumidityWithContext e v tr =
         ((case r2 of Inl err \<Rightarrow> Inl err | Inr data \<Rightarrow> index01 data), v, tr2)"
        by (simp add: WriteBytes_def frame_of_def split: sum.splits)
      with loop show thesis by (rule looped)
    qed
  qed
qed

lemma fetch_active:
  assumes "getPeriodicMeasurementCommand (lastPeriodic v) (lastPrecision v) = lastCmd v"
    and "lastCmd v \<noteq> None"
    and "write_result e tr CMD_PERIOD_FETCH = None"
    and "fetch_loop e 5 (GetWaitDuration (lastPeriodic v)) True [] (tr @ [BusWrite CMD_PERIOD_FETCH])
           = (r2, tr2)"
  shows "FetchUncompTemperatureAndHumidityWithContext e v tr =
           ((case r2 of Inl err \<Rightarrow> Inl err | Inr data \<Rightarrow> index01 data), v, tr2)"
  using assms
  by (cases "lastCmd v")
     (auto simp: FetchUncompTemperatureAndHumidityWithContext_def WriteBytes_def frame_of_def
      split: sum.splits)

lemma getU16BE_pair: "getU16BE [a, b] = push_bit 8 (ucast a) + ucast b"
  by (simp add: getU16BE_def)

lemma readData_two_blocks:
  "read_result e tr 6 =
     Inr [t1, t0, calcCRC_SHT3X e 0xFF [t1, t0], h1, h0, calcCRC_SHT3X e 0xFF [h1, h0]] \<Longrightarrow>
   readDataWithCRCCheck e tr 2 = (Inr [getU16BE [t1, t0], getU16BE [h1, h0]], tr @ [BusRead 6])"
  by (simp add: readDataWithCRCCheck_def readDataToStruct_def Let_def)

lemma readData_one_block:
  "read_result e tr 3 = Inr [d1, d0, calcCRC_SHT3X e 0xFF [d1, d0]] \<Longrightarrow>
   readDataWithCRCCheck e tr 1 = (Inr [getU16BE [d1, d0]], tr @ [BusRead 3])"
  by (simp add: readDataWithCRCCheck_def readDataToStruct_def Let_def)



subsection \<open>The retry budget\<close>

text \<open>
  C2. With an active session, the fetch opcode written, every read answered by "not
  acknowledged" and no wait cancelled, the fetch reads six times, waits five times in
  between, and returns the read's error after the sixth read; the log ends there.
\<close>

theorem fetch_gives_up_after_six_reads:
  assumes active: "getPeriodicMeasurementCommand (lastPeriodic v) (lastPrecision v) = lastCmd v"
      "lastCmd v \<noteq> None"
    and wr: "write_result e tr CMD_PERIOD_FETCH = None"
    and rd: "\<forall>h n. read_result e h n = Inl BusNotAcknowledging"
    and wt: "\<forall>h d. wait_result e h d = None"
  shows "FetchUncompTemperatureAndHumidityWithContext e v tr =
      (Inl (Bus BusNotAcknowledging), v,
       tr @ [BusWrite CMD_PERIOD_FETCH,
             BusRead 6, Wait (GetWaitDuration (lastPeriodic v)),
             BusRead 6, Wait (GetWaitDuration (lastPeriodic v) div 10),
             BusRead 6, Wait (GetWaitDuration (lastPeriodic v) div 10),
             BusRead 6, Wait (GetWaitDuration (lastPeriodic v) div 10),
             BusRead 6, Wait (GetWaitDuration (lastPeriodic v) div 10),
             BusRead 6])
    \<and> reads (snd (snd (FetchUncompTemperatureAndHumidityWithContext e v tr))) = reads tr + 6"
proof -
  have r: "readDataWithCRCCheck e h 2 = (Inl (Bus BusNotAcknowledging), h @ [BusRead 6])" for h
    using readData_fail [of e h 2 BusNotAcknowledging] rd by simp
  have step: "fetch_loop e rc d f data h =
      fetch_loop e (rc - 1) (if f then d div 10 else d) False [] (h @ [BusRead 6, Wait d])"
    if "0 < rc" for rc d f data h
    using fetch_loop_retry [OF that r] wt by simp
  have last: "fetch_loop e 0 d f data h = (Inl (Bus BusNotAcknowledging), h @ [BusRead 6])"
    for d f data h
    by (rule fetch_loop_last [OF r])
  have loop: "fetch_loop e 5 d True [] h =
      (Inl (Bus BusNotAcknowledging),
       h @ [BusRead 6, Wait d, BusRead 6, Wait (d div 10), BusRead 6, Wait (d div 10),
            BusRead 6, Wait (d div 10), BusRead 6, Wait (d div 10), BusRead 6])" for d h
    by (simp add: step last)
  have run: "FetchUncompTemperatureAndHumidityWithContext e v tr =
      (Inl (Bus BusNotAcknowledging), v,
       tr @ [BusWrite CMD_PERIOD_FETCH,
             BusRead 6, Wait (GetWaitDuration (lastPeriodic v)),
             BusRead 6, Wait (GetWaitDuration (lastPeriodic v) div 10),
             BusRead 6, Wait (GetWaitDuration (lastPeriodic v) div 10),
             BusRead 6, Wait (GetWaitDuration (lastPeriodic v) div 10),
             BusRead 6, Wait (GetWaitDuration (lastPeriodic v) div 10),
             BusRead 6])"
    using fetch_active [OF active wr loop] by simp
  then show ?thesis by (simp add: reads_append)
qed

theorem fetch_gives_up_after_six_reads_witness:
  "FetchUncompTemperatureAndHumidityWithContext
     (sample_env (\<lambda>h n. Inl BusNotAcknowledging) (\<lambda>h d. None)) running_1mps_low []
   = (Inl (Bus BusNotAcknowledging), running_1mps_low,
      [BusWrite CMD_PERIOD_FETCH, BusRead 6, Wait 1000000000, BusRead 6, Wait 100000000,
       BusRead 6, Wait 100000000, BusRead 6, Wait 100000000, BusRead 6, Wait 100000000,
       BusRead 6])
   \<and> reads (snd (snd (FetchUncompTemperatureAndHumidityWithContext
        (sample_env (\<lambda>h n. Inl BusNotAcknowledging) (\<lambda>h d. None)) running_1mps_low []))) = 6"
  using fetch_gives_up_after_six_reads
    [of running_1mps_low "sample_env (\<lambda>h n. Inl BusNotAcknowledging) (\<lambda>h d. None)" "[]"]
  by (simp add: sample_simps)

subsection \<open>The waits between the reads\<close>



subsection \<open>Cancellation\<close>

text \<open>
  C6. When a wait of the fetch ends by the context being done, that wait is the last entry
  of the log (no read follows it) and the fetch returns the context's error.
\<close>

theorem fetch_cancelled_wait_is_final:
  assumes run: "FetchUncompTemperatureAndHumidityWithContext e v tr = (r, v', tr')"
    and pos: "tr' = h @ Wait w # rest" "length tr \<le> length h"
    and cancelled: "wait_result e h w = Some cerr"
  shows "rest = [] \<and> r = Inl (Ctx cerr)"
proof (cases rule: fetch_cases [of e v tr])
  case inactive
  with run pos show ?thesis by simp
next
  case (write_failed err)
  with run pos show ?thesis
    by (auto simp: append_eq_append_conv2 append_eq_Cons_conv Cons_eq_append_conv)
next
  case (looped r2 tr2)
  let ?tr1 = "tr @ [BusWrite CMD_PERIOD_FETCH]"
  let ?D = "GetWaitDuration (lastPeriodic v)"
  from looped(2) run have tr2: "tr' = tr2"
    and res: "r = (case r2 of Inl err \<Rightarrow> Inl err | Inr data \<Rightarrow> index01 data)"
    by simp_all
  obtain ext where ext: "tr2 = ?tr1 @ ext"
    using fetch_loop_extends [of e 5 ?D True "[]" ?tr1] looped(1) by auto
  have len: "length ?tr1 \<le> length h"
  proof (rule ccontr)
    assume "\<not> length ?tr1 \<le> length h"
    with pos(2) have "length h = length tr" by simp
    with pos(1) tr2 ext show False
      by (auto simp: append_eq_append_conv2 append_eq_Cons_conv Cons_eq_append_conv)
  qed
  have "rest = [] \<and> r2 = Inl (Ctx cerr)"
    using fetch_loop_cancelled_aux [of 5 5 e ?D True "[]" ?tr1 r2 tr2 h w rest cerr]
      looped(1) pos(1) tr2 len cancelled by simp
  with res show ?thesis by simp
qed

theorem fetch_cancelled_wait_is_final_witness:
  "FetchUncompTemperatureAndHumidityWithContext
       (sample_env (\<lambda>h n. Inl BusNotAcknowledging)
                   (\<lambda>h d. if length (waits h) = 2 then Some Canceled else None))
       running_1mps_low []
     = (Inl (Ctx Canceled), running_1mps_low,
        [BusWrite CMD_PERIOD_FETCH, BusRead 6, Wait 1000000000, BusRead 6, Wait 100000000,
         BusRead 6] @ Wait 100000000 # [])
   \<and> wait_result (sample_env (\<lambda>h n. Inl BusNotAcknowledging)
                   (\<lambda>h d. if length (waits h) = 2 then Some Canceled else None))
        [BusWrite CMD_PERIOD_FETCH, BusRead 6, Wait 1000000000, BusRead 6, Wait 100000000,
         BusRead 6] 100000000 = Some Canceled"
proof -
  let ?e = "sample_env (\<lambda>h n. Inl BusNotAcknowledging)
                   (\<lambda>h d. if length (waits h) = 2 then Some Canceled else None)"
  let ?h = "[BusWrite CMD_PERIOD_FETCH, BusRead 6, Wait 1000000000, BusRead 6, Wait 100000000,
         BusRead 6]"
  have run: "FetchUncompTemperatureAndHumidityWithContext ?e running_1mps_low []
      = (Inl (Ctx Canceled), running_1mps_low, ?h @ Wait 100000000 # [])"
    by code_simp
  have c: "wait_result ?e ?h 100000000 = Some Canceled"
    by (simp add: sample_env_def)
  from fetch_cancelled_wait_is_final [OF run refl _ c] run c show ?thesis by simp
qed

subsection \<open>Commands that are not periodic measurement commands\<close>

lemma periodic_cmd_is:
  "getPeriodicMeasurementCommand p r = Some c \<Longrightarrow>
   c \<in> {CMD_PERIOD_MEASURE_05MPS_HIGH, CMD_PERIOD_MEASURE_05MPS_MEDIUM, CMD_PERIOD_MEASURE_05MPS_LOW,
        CMD_PERIOD_MEASURE_1MPS_HIGH, CMD_PERIOD_MEASURE_1MPS_MEDIUM, CMD_PERIOD_MEASURE_1MPS_LOW,
        CMD_PERIOD_MEASURE_2MPS_HIGH, CMD_PERIOD_MEASURE_2MPS_MEDIUM, CMD_PERIOD_MEASURE_2MPS_LOW,
        CMD_PERIOD_MEASURE_4MPS_HIGH, CMD_PERIOD_MEASURE_4MPS_MEDIUM, CMD_PERIOD_MEASURE_4MPS_LOW,
        CMD_PERIOD_MEASURE_10MPS_HIGH, CMD_PERIOD_MEASURE_10MPS_MEDIUM, CMD_PERIOD_MEASURE_10MPS_LOW}"
  by (simp add: getPeriodicMeasurementCommand_def split: if_splits)

lemma periodic_cmd_head:
  "getPeriodicMeasurementCommand p r = Some c \<Longrightarrow> \<exists>b. c = [0x20, b] \<or> c = [0x21, b] \<or> c = [0x22, b] \<or> c = [0x23, b] \<or> c = [0x27, b]"
  by (drule periodic_cmd_is) (auto simp: CMD_period)

lemma not_periodic:
  assumes "x = None \<or> (\<exists>a b. x = Some [a, b] \<and> a \<notin> {0x20, 0x21, 0x22, 0x23, 0x27})"
  shows "getPeriodicMeasurementCommand p r = None \<or> getPeriodicMeasurementCommand p r \<noteq> x"
proof (cases "getPeriodicMeasurementCommand p r")
  case None then show ?thesis by simp
next
  case (Some c)
  from periodic_cmd_head [OF Some] assms Some show ?thesis by auto
qed

lemma other_not_periodic:
  "x \<in> other_commands \<Longrightarrow>
   getPeriodicMeasurementCommand p r = None \<or> getPeriodicMeasurementCommand p r \<noteq> x"
  by (rule not_periodic)
     (auto simp: other_commands_def CMD_single CMD_alert CMD_other)

lemma ReadStatusReg_lastCmd: "lastCmd (fst (snd (ReadStatusReg e v tr))) = lastCmd v"
  by (simp add: ReadStatusReg_def split: option.splits prod.splits sum.splits list.splits)

lemma status_flag_lastCmd: "lastCmd (fst (snd (status_flag e v tr flag))) = lastCmd v"
  using ReadStatusReg_lastCmd [of e "v\<lparr>lastStatusReg := None\<rparr>" tr]
  by (auto simp: status_flag_def split: prod.splits sum.splits)

lemma err_of_struct: "fst (snd (err_of r)) = fst (snd r)"
  by (simp add: err_of_def split: prod.splits sum.splits)

lemma initiateMeasure_lastCmd:
  "lastCmd (fst (snd (initiateMeasure e v tr cmd p))) = lastCmd v
   \<or> fst (initiateMeasure e v tr cmd p) = None \<and> lastCmd (fst (snd (initiateMeasure e v tr cmd p))) = cmd"
  by (simp add: initiateMeasure_def Let_def split: prod.splits option.splits)

lemma initiateMeasure_other:
  "c \<in> other_commands \<Longrightarrow>
   lastCmd (fst (snd (initiateMeasure e v tr c p))) = lastCmd v
   \<or> lastCmd (fst (snd (initiateMeasure e v tr c p))) \<in> other_commands"
  using initiateMeasure_lastCmd [of e v tr c p] by auto

lemma ReadUncomp_struct:
  "fst (snd (ReadUncompTemperatureAndHumidity e v tr p)) =
   fst (snd (initiateMeasure e v tr
     (if p = RepeatabilityLow then Some CMD_SINGLE_MEASURE_LOW
      else if p = RepeatabilityMedium then Some CMD_SINGLE_MEASURE_MEDIUM
      else if p = RepeatabilityHigh then Some CMD_SINGLE_MEASURE_HIGH
      else None) p))"
  unfolding ReadUncompTemperatureAndHumidity_def Let_def
  by (simp split: prod.splits option.splits sum.splits split del: if_split)

lemma single_cmd_other:
  "(if p = RepeatabilityLow then Some CMD_SINGLE_MEASURE_LOW
      else if p = RepeatabilityMedium then Some CMD_SINGLE_MEASURE_MEDIUM
      else if p = RepeatabilityHigh then Some CMD_SINGLE_MEASURE_HIGH
      else None) \<in> other_commands"
  by (simp add: other_commands_def)

lemma ReadUncomp_lastCmd:
  "lastCmd (fst (snd (ReadUncompTemperatureAndHumidity e v tr p))) = lastCmd v
   \<or> lastCmd (fst (snd (ReadUncompTemperatureAndHumidity e v tr p))) \<in> other_commands"
  unfolding ReadUncomp_struct by (rule initiateMeasure_other [OF single_cmd_other])

lemma ReadTemperature_struct:
  "fst (snd (ReadTemperatureAndRelativeHumidity e v tr p)) =
   fst (snd (ReadUncompTemperatureAndHumidity e v tr p))"
  by (simp add: ReadTemperatureAndRelativeHumidity_def Let_def split: prod.splits sum.splits)

lemma ReadTemperature_lastCmd:
  "lastCmd (fst (snd (ReadTemperatureAndRelativeHumidity e v tr p))) = lastCmd v
   \<or> lastCmd (fst (snd (ReadTemperatureAndRelativeHumidity e v tr p))) \<in> other_commands"
  unfolding ReadTemperature_struct by (rule ReadUncomp_lastCmd)

lemma Start_failed_lastCmd:
  "fst (StartPeriodicTemperatureAndHumidityMeasure e v tr p r) \<noteq> None \<Longrightarrow>
   lastCmd (fst (snd (StartPeriodicTemperatureAndHumidityMeasure e v tr p r))) = lastCmd v"
  by (auto simp: StartPeriodicTemperatureAndHumidityMeasure_def initiateMeasure_def Let_def
      split: prod.splits option.splits)

lemma Reset_lastCmd:
  "lastCmd (fst (snd (Reset e v tr))) = lastCmd v \<or> lastCmd (fst (snd (Reset e v tr))) \<in> other_commands"
  by (simp add: Reset_def Let_def other_commands_def split: prod.splits option.splits)

lemma SetHeaterStatus_lastCmd:
  "lastCmd (fst (snd (SetHeaterStatus e v tr b))) = lastCmd v
   \<or> lastCmd (fst (snd (SetHeaterStatus e v tr b))) \<in> other_commands"
  by (simp add: SetHeaterStatus_def Let_def other_commands_def split: prod.splits option.splits)

lemma Break_lastCmd:
  "lastCmd (fst (snd (Break e v tr))) = lastCmd v \<or> lastCmd (fst (snd (Break e v tr))) \<in> other_commands"
  by (simp add: Break_def Let_def other_commands_def split: prod.splits option.splits)

lemma fetch_keeps: "fst (snd (FetchUncompTemperatureAndHumidityWithContext e v tr)) = v"
  by (simp add: FetchUncompTemperatureAndHumidityWithContext_def Let_def
      split: prod.splits option.splits sum.splits)

lemma FetchTemperature_lastCmd:
  "lastCmd (fst (snd (FetchTemperatureAndRelativeHumidityWithContext e v tr))) = lastCmd v"
  using fetch_keeps [of e v tr]
  by (auto simp: FetchTemperatureAndRelativeHumidityWithContext_def Let_def split: prod.splits sum.splits)

lemma readAlertData_lastCmd:
  "lastCmd (fst (snd (readAlertData e v tr cmd))) = lastCmd v
   \<or> lastCmd (fst (snd (readAlertData e v tr cmd))) = cmd"
  by (simp add: readAlertData_def Let_def split: prod.splits option.splits sum.splits list.splits)

lemma writeAlertData_lastCmd:
  "lastCmd (fst (snd (writeAlertData e v tr cmd t h))) = lastCmd v
   \<or> lastCmd (fst (snd (writeAlertData e v tr cmd t h))) = cmd"
  by (simp add: writeAlertData_def Let_def split: prod.splits option.splits)

lemma exec_lastCmd:
  assumes "\<not> (is_start c \<and> fst (exec e c v tr) = None)"
  shows "lastCmd (fst (snd (exec e c v tr))) = lastCmd v
     \<or> lastCmd (fst (snd (exec e c v tr))) \<in> other_commands"
proof (cases c)
  case (Call_StartPeriodicTemperatureAndHumidityMeasure p r)
  with assms Start_failed_lastCmd [of e v tr p r] show ?thesis by simp
next
  case (Call_ReadUncompTemperatureAndHumidity r)
  with ReadUncomp_lastCmd [of e v tr r] show ?thesis by (simp add: err_of_struct)
next
  case (Call_ReadTemperatureAndRelativeHumidity r)
  with ReadTemperature_lastCmd [of e v tr r] show ?thesis by (simp add: err_of_struct)
next
  case Call_Reset
  with Reset_lastCmd [of e v tr] show ?thesis by simp
next
  case (Call_SetHeaterStatus b)
  with SetHeaterStatus_lastCmd [of e v tr b] show ?thesis by simp
next
  case Call_Break
  with Break_lastCmd [of e v tr] show ?thesis by simp
next
  case Call_ReadAlertHighSet
  with readAlertData_lastCmd [of e v tr "Some CMD_ALERT_READ_HIGH_SET"] show ?thesis
    by (auto simp: err_of_struct ReadAlertHighSet_def other_commands_def)
next
  case Call_ReadAlertHighClear
  with readAlertData_lastCmd [of e v tr "Some CMD_ALERT_READ_HIGH_CLEAR"] show ?thesis
    by (auto simp: err_of_struct ReadAlertHighClear_def other_commands_def)
next
  case Call_ReadAlertLowClear
  with readAlertData_lastCmd [of e v tr "Some CMD_ALERT_READ_LOW_CLEAR"] show ?thesis
    by (auto simp: err_of_struct ReadAlertLowClear_def other_commands_def)
next
  case Call_ReadAlertLowSet
  with readAlertData_lastCmd [of e v tr "Some CMD_ALERT_READ_LOW_SET"] show ?thesis
    by (auto simp: err_of_struct ReadAlertLowSet_def other_commands_def)
next
  case (Call_WriteAlertHighSet t h)
  with writeAlertData_lastCmd [of e v tr "Some CMD_ALERT_WRITE_HIGH_SET" t h] show ?thesis
    by (auto simp: WriteAlertHighSet_def other_commands_def)
next
  case (Call_WriteAlertHighClear t h)
  with writeAlertData_lastCmd [of e v tr "Some CMD_ALERT_WRITE_HIGH_CLEAR" t h] show ?thesis
    by (auto simp: WriteAlertHighClear_def other_commands_def)
next
  case (Call_WriteAlertLowClear t h)
  with writeAlertData_lastCmd [of e v tr "Some CMD_ALERT_WRITE_LOW_CLEAR" t h] show ?thesis
    by (auto simp: WriteAlertLowClear_def other_commands_def)
next
  case (Call_WriteAlertLowSet t h)
  with writeAlertData_lastCmd [of e v tr "Some CMD_ALERT_WRITE_LOW_SET" t h] show ?thesis
    by (auto simp: WriteAlertLowSet_def other_commands_def)
qed (simp_all add: err_of_struct ReadStatusReg_lastCmd status_flag_lastCmd fetch_keeps
      FetchTemperature_lastCmd
      GetHeaterStatus_def GetAlertPendingStatus_def GetHumidityAlertStatus_def
      GetTemperatureAlertStatus_def CheckResetDetected_def CheckCommandFailed_def
      CheckWrittenChecksumIsIncorrect_def FetchUncompTemperatureAndHumidity_def
      FetchTemperatureAndRelativeHumidity_def)

lemma run_keeps_other:
  "no_start_succeeds e cs v tr \<Longrightarrow> lastCmd v \<in> other_commands \<Longrightarrow>
   lastCmd (fst (run e cs v tr)) \<in> other_commands"
proof (induction cs arbitrary: v tr)
  case Nil
  then show ?case by simp
next
  case (Cons c cs)
  obtain err v1 tr1 where ex: "exec e c v tr = (err, v1, tr1)"
    by (cases "exec e c v tr")
  with Cons.prems(1) have ns: "\<not> (is_start c \<and> err = None)" and rest: "no_start_succeeds e cs v1 tr1"
    by (auto split: if_splits)
  from ns ex exec_lastCmd [of c e v tr] Cons.prems(2) have "lastCmd v1 \<in> other_commands"
    by auto
  from Cons.IH [OF rest this] ex show ?case by simp
qed

subsection \<open>Break\<close>

text \<open>
  C7. Break writes the break opcode to the bus whatever the struct holds. When it returns
  nil, \<open>lastCmd\<close> is the break opcode, and after any sequence of calls of exported
  methods in which no start of periodic measurement returns nil, the fetch fails its
  session check: it returns "no measurement initiated" and leaves the log as it is.
\<close>

theorem break_ends_session:
  "snd (snd (Break e v tr)) = tr @ [BusWrite CMD_BREAK]
   \<and> (Break e v tr = (None, v1, tr1) \<and> no_start_succeeds e cs v1 tr1 \<and> run e cs v1 tr1 = (v2, tr2)
      \<longrightarrow> lastCmd v1 = Some CMD_BREAK
        \<and> FetchUncompTemperatureAndHumidityWithContext e v2 tr2 = (Inl NoActiveAcquisition, v2, tr2))"
proof (intro conjI impI)
  show "snd (snd (Break e v tr)) = tr @ [BusWrite CMD_BREAK]"
    by (simp add: Break_def Let_def WriteBytes_def frame_of_def split: option.splits)
next
  assume H: "Break e v tr = (None, v1, tr1) \<and> no_start_succeeds e cs v1 tr1 \<and> run e cs v1 tr1 = (v2, tr2)"
  then show b: "lastCmd v1 = Some CMD_BREAK"
    by (auto simp: Break_def Let_def split: prod.splits option.splits)
  then have "lastCmd v1 \<in> other_commands" by (simp add: other_commands_def)
  with H run_keeps_other [of e cs v1 tr1] have "lastCmd v2 \<in> other_commands" by auto
  from other_not_periodic [OF this, of "lastPeriodic v2" "lastPrecision v2"]
  show "FetchUncompTemperatureAndHumidityWithContext e v2 tr2 = (Inl NoActiveAcquisition, v2, tr2)"
    by (auto simp: FetchUncompTemperatureAndHumidityWithContext_def Let_def)
qed

theorem break_ends_session_witness:
  "Break (sample_env (\<lambda>h n. Inl BusNotAcknowledging) (\<lambda>h d. None)) running_1mps_low []
     = (None, running_1mps_low\<lparr>lastCmd := Some CMD_BREAK\<rparr>, [BusWrite CMD_BREAK])
   \<and> no_start_succeeds (sample_env (\<lambda>h n. Inl BusNotAcknowledging) (\<lambda>h d. None))
       [Call_Reset, Call_FetchUncompTemperatureAndHumidity]
       (running_1mps_low\<lparr>lastCmd := Some CMD_BREAK\<rparr>) [BusWrite CMD_BREAK]
   \<and> run (sample_env (\<lambda>h n. Inl BusNotAcknowledging) (\<lambda>h d. None))
       [Call_Reset, Call_FetchUncompTemperatureAndHumidity]
       (running_1mps_low\<lparr>lastCmd := Some CMD_BREAK\<rparr>) [BusWrite CMD_BREAK]
     = (running_1mps_low\<lparr>lastCmd := Some CMD_RESET\<rparr>,
        [BusWrite CMD_BREAK, BusWrite CMD_RESET, Sleep 1500000])
   \<and> FetchUncompTemperatureAndHumidityWithContext
       (sample_env (\<lambda>h n. Inl BusNotAcknowledging) (\<lambda>h d. None))
       (running_1mps_low\<lparr>lastCmd := Some CMD_RESET\<rparr>)
       [BusWrite CMD_BREAK, BusWrite CMD_RESET, Sleep 1500000]
     = (Inl NoActiveAcquisition, running_1mps_low\<lparr>lastCmd := Some CMD_RESET\<rparr>,
        [BusWrite CMD_BREAK, BusWrite CMD_RESET, Sleep 1500000])"
proof -
  let ?e = "sample_env (\<lambda>h n. Inl BusNotAcknowledging) (\<lambda>h d. None)"
  let ?cs = "[Call_Reset, Call_FetchUncompTemperatureAndHumidity]"
  let ?v1 = "running_1mps_low\<lparr>lastCmd := Some CMD_BREAK\<rparr>"
  let ?v2 = "running_1mps_low\<lparr>lastCmd := Some CMD_RESET\<rparr>"
  let ?t2 = "[BusWrite CMD_BREAK, BusWrite CMD_RESET, Sleep 1500000]"
  have b: "Break ?e running_1mps_low [] = (None, ?v1, [BusWrite CMD_BREAK])"
    by code_simp
  have n: "no_start_succeeds ?e ?cs ?v1 [BusWrite CMD_BREAK]"
    by code_simp
  have r: "run ?e ?cs ?v1 [BusWrite CMD_BREAK] = (?v2, ?t2)"
    by code_simp
  from break_ends_session [of ?e running_1mps_low "[]" ?v1 "[BusWrite CMD_BREAK]" ?cs ?v2 ?t2] b n r
  show ?thesis by simp
qed

subsection \<open>The cached status word\<close>

lemma ReadStatusReg_writes_first:
  "lastStatusReg v = None \<Longrightarrow>
   \<exists>ext. snd (snd (ReadStatusReg e v tr)) = tr @ BusWrite CMD_READ_STATUS_REG # ext"
  using readData_trace [of e "tr @ [BusWrite CMD_READ_STATUS_REG]" 1]
  by (auto simp: ReadStatusReg_def WriteBytes_def frame_of_def
      split: option.splits prod.splits sum.splits list.splits)

lemma status_flag_writes_first:
  "\<exists>ext. snd (snd (status_flag e v tr flag)) = tr @ BusWrite CMD_READ_STATUS_REG # ext"
  using ReadStatusReg_writes_first [of "v\<lparr>lastStatusReg := None\<rparr>" e tr]
  by (auto simp: status_flag_def split: prod.splits sum.splits)

text \<open>
  C4, as claimed, fails: with the status word \<open>0x2000\<close> cached, switching the heater off
  (or initiating a measurement) leaves the word cached, and the next \<open>ReadStatusReg\<close>
  returns it with no entry added to the log.
\<close>

theorem heater_toggle_keeps_cached_status:
  "ReadStatusReg heater_on_env NewSHT3X []
     = (Inr 0x2000, cached_heater_on, [BusWrite CMD_READ_STATUS_REG, BusRead 3])
   \<and> SetHeaterStatus heater_on_env cached_heater_on [BusWrite CMD_READ_STATUS_REG, BusRead 3] False
     = (None, cached_heater_on\<lparr>lastCmd := Some CMD_DISABLE_HEATER\<rparr>,
        [BusWrite CMD_READ_STATUS_REG, BusRead 3, BusWrite CMD_DISABLE_HEATER, Sleep 1000000])
   \<and> ReadStatusReg heater_on_env (cached_heater_on\<lparr>lastCmd := Some CMD_DISABLE_HEATER\<rparr>)
        [BusWrite CMD_READ_STATUS_REG, BusRead 3, BusWrite CMD_DISABLE_HEATER, Sleep 1000000]
     = (Inr 0x2000, cached_heater_on\<lparr>lastCmd := Some CMD_DISABLE_HEATER\<rparr>,
        [BusWrite CMD_READ_STATUS_REG, BusRead 3, BusWrite CMD_DISABLE_HEATER, Sleep 1000000])
   \<and> initiateMeasure heater_on_env cached_heater_on [BusWrite CMD_READ_STATUS_REG, BusRead 3]
        (Some CMD_SINGLE_MEASURE_LOW) RepeatabilityLow
     = (None, cached_heater_on\<lparr>lastCmd := Some CMD_SINGLE_MEASURE_LOW\<rparr>,
        [BusWrite CMD_READ_STATUS_REG, BusRead 3, BusWrite CMD_SINGLE_MEASURE_LOW, Sleep 4500000])
   \<and> ReadStatusReg heater_on_env (cached_heater_on\<lparr>lastCmd := Some CMD_SINGLE_MEASURE_LOW\<rparr>)
        [BusWrite CMD_READ_STATUS_REG, BusRead 3, BusWrite CMD_SINGLE_MEASURE_LOW, Sleep 4500000]
     = (Inr 0x2000, cached_heater_on\<lparr>lastCmd := Some CMD_SINGLE_MEASURE_LOW\<rparr>,
        [BusWrite CMD_READ_STATUS_REG, BusRead 3, BusWrite CMD_SINGLE_MEASURE_LOW, Sleep 4500000])"
  by code_simp

text \<open>
  C4, amended. \<open>SetHeaterStatus\<close> and \<open>initiateMeasure\<close> (and with it the single-shot
  read and the start of periodic measurement) leave the cached status word as it is.
  \<open>ReadStatusReg\<close> returns a cached word without touching the bus, and writes the
  status-read opcode only when no word is cached; each of the seven accessors, from
  \<open>GetHeaterStatus\<close> to \<open>CheckWrittenChecksumIsIncorrect\<close>, clears the cache and so
  always writes the status-read opcode.
\<close>

theorem status_cache_survives_commands:
  "lastStatusReg (fst (snd (SetHeaterStatus e v tr b))) = lastStatusReg v
   \<and> lastStatusReg (fst (snd (initiateMeasure e v tr cmd p))) = lastStatusReg v
   \<and> lastStatusReg (fst (snd (ReadUncompTemperatureAndHumidity e v tr p))) = lastStatusReg v
   \<and> lastStatusReg (fst (snd (StartPeriodicTemperatureAndHumidityMeasure e v tr pm p))) = lastStatusReg v
   \<and> (lastStatusReg v = Some w \<longrightarrow> ReadStatusReg e v tr = (Inr w, v, tr))
   \<and> (lastStatusReg v = None \<longrightarrow>
        (\<exists>ext. snd (snd (ReadStatusReg e v tr)) = tr @ BusWrite CMD_READ_STATUS_REG # ext))
   \<and> (\<exists>ext. snd (snd (GetHeaterStatus e v tr)) = tr @ BusWrite CMD_READ_STATUS_REG # ext)
   \<and> (\<exists>ext. snd (snd (GetAlertPendingStatus e v tr)) = tr @ BusWrite CMD_READ_STATUS_REG # ext)
   \<and> (\<exists>ext. snd (snd (GetHumidityAlertStatus e v tr)) = tr @ BusWrite CMD_READ_STATUS_REG # ext)
   \<and> (\<exists>ext. snd (snd (GetTemperatureAlertStatus e v tr)) = tr @ BusWrite CMD_READ_STATUS_REG # ext)
   \<and> (\<exists>ext. snd (snd (CheckResetDetected e v tr)) = tr @ BusWrite CMD_READ_STATUS_REG # ext)
   \<and> (\<exists>ext. snd (snd (CheckCommandFailed e v tr)) = tr @ BusWrite CMD_READ_STATUS_REG # ext)
   \<and> (\<exists>ext. snd (snd (CheckWrittenChecksumIsIncorrect e v tr)) =
          tr @ BusWrite CMD_READ_STATUS_REG # ext)"
proof (intro conjI impI)
  show "lastStatusReg (fst (snd (SetHeaterStatus e v tr b))) = lastStatusReg v"
    by (simp add: SetHeaterStatus_def Let_def split: prod.splits option.splits)
  show im: "lastStatusReg (fst (snd (initiateMeasure e v tr cmd p))) = lastStatusReg v" for cmd
    by (simp add: initiateMeasure_def Let_def split: prod.splits option.splits)
  show "lastStatusReg (fst (snd (ReadUncompTemperatureAndHumidity e v tr p))) = lastStatusReg v"
    unfolding ReadUncomp_struct by (rule im)
  show "lastStatusReg (fst (snd (StartPeriodicTemperatureAndHumidityMeasure e v tr pm p))) = lastStatusReg v"
    using im [of "getPeriodicMeasurementCommand pm p"]
    by (auto simp: StartPeriodicTemperatureAndHumidityMeasure_def Let_def split: prod.splits option.splits)
  show "ReadStatusReg e v tr = (Inr w, v, tr)" if "lastStatusReg v = Some w"
    using that by (simp add: ReadStatusReg_def)
  show "\<exists>ext. snd (snd (ReadStatusReg e v tr)) = tr @ BusWrite CMD_READ_STATUS_REG # ext"
    if "lastStatusReg v = None"
    using that by (rule ReadStatusReg_writes_first)
  show "\<exists>ext. snd (snd (GetHeaterStatus e v tr)) = tr @ BusWrite CMD_READ_STATUS_REG # ext"
    unfolding GetHeaterStatus_def by (rule status_flag_writes_first)
  show "\<exists>ext. snd (snd (GetAlertPendingStatus e v tr)) = tr @ BusWrite CMD_READ_STATUS_REG # ext"
    unfolding GetAlertPendingStatus_def by (rule status_flag_writes_first)
  show "\<exists>ext. snd (snd (GetHumidityAlertStatus e v tr)) = tr @ BusWrite CMD_READ_STATUS_REG # ext"
    unfolding GetHumidityAlertStatus_def by (rule status_flag_writes_first)
  show "\<exists>ext. snd (snd (GetTemperatureAlertStatus e v tr)) = tr @ BusWrite CMD_READ_STATUS_REG # ext"
    unfolding GetTemperatureAlertStatus_def by (rule status_flag_writes_first)
  show "\<exists>ext. snd (snd (CheckResetDetected e v tr)) = tr @ BusWrite CMD_READ_STATUS_REG # ext"
    unfolding CheckResetDetected_def by (rule status_flag_writes_first)
  show "\<exists>ext. snd (snd (CheckCommandFailed e v tr)) = tr @ BusWrite CMD_READ_STATUS_REG # ext"
    unfolding CheckCommandFailed_def by (rule status_flag_writes_first)
  show "\<exists>ext. snd (snd (CheckWrittenChecksumIsIncorrect e v tr)) =
          tr @ BusWrite CMD_READ_STATUS_REG # ext"
    unfolding CheckWrittenChecksumIsIncorrect_def by (rule status_flag_writes_first)
qed

theorem status_cache_survives_commands_witness:
  "lastStatusReg cached_heater_on = Some 0x2000
   \<and> ReadStatusReg heater_on_env cached_heater_on [] = (Inr 0x2000, cached_heater_on, [])
   \<and> lastStatusReg (fst (snd (SetHeaterStatus heater_on_env cached_heater_on [] False))) = Some 0x2000
   \<and> GetHeaterStatus heater_on_env cached_heater_on []
       = (Inr True, cached_heater_on, [BusWrite CMD_READ_STATUS_REG, BusRead 3])"
proof -
  have g: "GetHeaterStatus heater_on_env cached_heater_on []
       = (Inr True, cached_heater_on, [BusWrite CMD_READ_STATUS_REG, BusRead 3])"
    by code_simp
  from status_cache_survives_commands
    [of heater_on_env cached_heater_on "[]" False "Some CMD_SINGLE_MEASURE_LOW" RepeatabilityLow
        Periodic1MPS "0x2000"] g
  show ?thesis by (simp add: cached_heater_on_def NewSHT3X_def)
qed

subsection \<open>Rounding to a float\<close>

lemma bitlength_pos: "0 < n \<Longrightarrow> 0 < bitlength n"
  by (subst bitlength.simps) simp

lemma bitlength_bounds: "0 < n \<Longrightarrow> 2 ^ (bitlength n - 1) \<le> n \<and> n < 2 ^ bitlength n"
proof (induction n rule: bitlength.induct)
  case (1 n)
  from "1.prems" have n0: "\<not> n \<le> 0" by simp
  have bl: "bitlength n = Suc (bitlength (n div 2))"
    using n0 by (subst bitlength.simps) simp
  show ?case
  proof (cases "n div 2 = 0")
    case True
    with "1.prems" have "n = 1" by presburger
    then show ?thesis by (simp add: bitlength.simps)
  next
    case False
    with "1.prems" have pos: "0 < n div 2" by presburger
    from "1.IH" [OF n0 pos] have lo: "2 ^ (bitlength (n div 2) - 1) \<le> n div 2"
      and hi: "n div 2 < 2 ^ bitlength (n div 2)" by simp_all
    from bitlength_pos [OF pos] obtain k where k: "bitlength (n div 2) = Suc k"
      by (cases "bitlength (n div 2)") auto
    from lo k have "2 * 2 ^ k \<le> 2 * (n div 2)" by simp
    also have "\<dots> \<le> n" by presburger
    finally have l: "2 ^ (bitlength n - 1) \<le> n" by (simp add: bl k)
    from hi have "2 * (n div 2) + 2 \<le> 2 * 2 ^ bitlength (n div 2)" by simp
    moreover have "n \<le> 2 * (n div 2) + 1" by presburger
    ultimately have "n < 2 ^ bitlength n" by (simp add: bl)
    with l show ?thesis by simp
  qed
qed

lemma round_even_of_int: "round_even (of_int n) = n"
  by (simp add: round_even_def)

lemma round_even_ge_floor: "\<lfloor>q\<rfloor> \<le> round_even q"
  by (simp add: round_even_def Let_def)

lemma round_even_le_ceiling: "round_even q \<le> \<lceil>q\<rceil>"
proof (cases "q = of_int \<lfloor>q\<rfloor>")
  case True
  then have "round_even q = \<lfloor>q\<rfloor>" by (simp add: round_even_def Let_def)
  then show ?thesis by (simp add: floor_le_ceiling)
next
  case False
  then have "\<lceil>q\<rceil> = \<lfloor>q\<rfloor> + 1" by (simp add: ceiling_altdef)
  then show ?thesis by (simp add: round_even_def Let_def)
qed

lemma round_even_lower: "of_int n \<le> q \<Longrightarrow> n \<le> round_even q"
proof -
  assume "of_int n \<le> q"
  then have "n \<le> \<lfloor>q\<rfloor>" by (simp add: le_floor_iff)
  with round_even_ge_floor [of q] show ?thesis by linarith
qed

lemma round_even_upper: "q \<le> of_int n \<Longrightarrow> round_even q \<le> n"
proof -
  assume "q \<le> of_int n"
  then have "\<lceil>q\<rceil> \<le> n" by (simp add: ceiling_le_iff)
  with round_even_le_ceiling [of q] show ?thesis by linarith
qed

lemma ilog2_lower: "x \<noteq> 0 \<Longrightarrow> 2 powi ilog2 x \<le> \<bar>x\<bar>"
proof (cases "1 \<le> \<bar>x\<bar>")
  case True
  let ?n = "\<lfloor>\<bar>x\<bar>\<rfloor>"
  from True have n: "0 < ?n" by simp
  from bitlength_bounds [OF n] have "2 ^ (bitlength ?n - 1) \<le> ?n" by simp
  then have "rat_of_int (2 ^ (bitlength ?n - 1)) \<le> of_int ?n" by (simp only: of_int_le_iff)
  also have "\<dots> \<le> \<bar>x\<bar>" by simp
  finally have "(2::rat) ^ (bitlength ?n - 1) \<le> \<bar>x\<bar>" by simp
  moreover have "ilog2 x = int (bitlength ?n - 1)"
    using True bitlength_pos [OF n] by (simp add: ilog2_def)
  ultimately show ?thesis by simp
next
  case False
  assume x: "x \<noteq> 0"
  let ?y = "1 / \<bar>x\<bar>"
  let ?n = "\<lceil>?y\<rceil> - 1"
  from False x have y: "1 < ?y" by simp
  then have c: "2 \<le> \<lceil>?y\<rceil>" by (simp add: le_ceiling_iff)
  then have n: "0 < ?n" by simp
  from bitlength_bounds [OF n] have "?n < 2 ^ bitlength ?n" by simp
  then have "\<lceil>?y\<rceil> \<le> 2 ^ bitlength ?n" by linarith
  then have "?y \<le> of_int (2 ^ bitlength ?n)" by (simp only: ceiling_le_iff)
  then have "?y \<le> 2 ^ bitlength ?n" by simp
  with x have "1 \<le> 2 ^ bitlength ?n * \<bar>x\<bar>" by (simp add: field_simps)
  then have "1 / 2 ^ bitlength ?n \<le> \<bar>x\<bar>" by (simp add: field_simps)
  moreover have "ilog2 x = - int (bitlength ?n)"
    using False by (simp add: ilog2_def)
  ultimately show ?thesis by (simp add: power_int_minus field_simps)
qed

lemma ilog2_upper: "x \<noteq> 0 \<Longrightarrow> \<bar>x\<bar> < 2 powi (ilog2 x + 1)"
proof (cases "1 \<le> \<bar>x\<bar>")
  case True
  let ?n = "\<lfloor>\<bar>x\<bar>\<rfloor>"
  from True have n: "0 < ?n" by simp
  from bitlength_bounds [OF n] have "?n < 2 ^ bitlength ?n" by simp
  then have "\<bar>x\<bar> < of_int (2 ^ bitlength ?n)" by (simp only: floor_less_iff)
  then have "\<bar>x\<bar> < 2 ^ bitlength ?n" by simp
  moreover have "ilog2 x + 1 = int (bitlength ?n)"
    using True by (simp add: ilog2_def)
  ultimately show ?thesis by simp
next
  case False
  assume x: "x \<noteq> 0"
  let ?y = "1 / \<bar>x\<bar>"
  let ?n = "\<lceil>?y\<rceil> - 1"
  from False x have y: "1 < ?y" by simp
  then have c: "2 \<le> \<lceil>?y\<rceil>" by (simp add: le_ceiling_iff)
  then have n: "0 < ?n" by simp
  from bitlength_pos [OF n] obtain k where k: "bitlength ?n = Suc k"
    by (cases "bitlength ?n") auto
  from bitlength_bounds [OF n] k have "2 ^ k \<le> ?n" by simp
  then have "(2::int) ^ k < \<lceil>?y\<rceil>" by linarith
  then have "of_int (2 ^ k) < ?y" by (simp only: less_ceiling_iff)
  then have "2 ^ k < ?y" by simp
  with x have "2 ^ k * \<bar>x\<bar> < 1" by (simp add: field_simps)
  then have "\<bar>x\<bar> < 1 / 2 ^ k" by (simp add: field_simps)
  moreover have "ilog2 x + 1 = - int k"
    using False k by (simp add: ilog2_def)
  ultimately show ?thesis by (simp add: power_int_minus field_simps)
qed

lemma powi_nonpos: "e \<le> 0 \<Longrightarrow> (2::rat) powi e = 1 / 2 ^ nat (- e)"
  by (cases "e = 0") (auto simp: power_int_def field_simps)

lemma powi_pos: "0 \<le> e \<Longrightarrow> (2::rat) powi e = 2 ^ nat e"
  by (simp add: power_int_def)

lemma powi_gt0: "0 < (2::rat) powi e"
  by (simp add: power_int_def)

text \<open>Rounding does not cross an integer of at most \<open>p\<close> bits.\<close>

lemma round_binary_upper:
  assumes M: "0 \<le> M" "M \<le> 2 ^ p" and emin: "emin \<le> 0" and p: "0 < p" and x: "x \<le> of_int M"
  shows "round_binary p emin x \<le> of_int M"
proof -
  define e where "e = max (ilog2 x - (int p - 1)) emin"
  have rb: "round_binary p emin x = of_int (round_even (x / 2 powi e)) * 2 powi e" if "x \<noteq> 0"
    using that by (simp add: round_binary_def e_def Let_def)
  consider "x = 0" | "x < 0" | "0 < x" "e \<le> 0" | "0 < x" "0 < e" by linarith
  then show ?thesis
  proof cases
    case 1
    with M show ?thesis by (simp add: round_binary_def)
  next
    case 2
    then have "x / 2 powi e \<le> of_int 0" using powi_gt0 [of e] by (simp add: field_simps)
    then have "round_even (x / 2 powi e) \<le> 0" by (rule round_even_upper)
    then have "rat_of_int (round_even (x / 2 powi e)) * 2 powi e \<le> 0"
      using powi_gt0 [of e] by (simp add: mult_le_0_iff)
    with 2 M rb show ?thesis by simp
  next
    case 3
    let ?k = "nat (- e)"
    have pw: "(2::rat) powi e = 1 / 2 ^ ?k" using 3 by (simp add: powi_nonpos)
    have "x / 2 powi e = x * 2 ^ ?k" by (simp add: pw)
    also have "\<dots> \<le> of_int M * 2 ^ ?k" using x by (intro mult_right_mono) simp_all
    also have "\<dots> = of_int (M * 2 ^ ?k)" by simp
    finally have "round_even (x / 2 powi e) \<le> M * 2 ^ ?k" by (rule round_even_upper)
    then have "(of_int (round_even (x / 2 powi e)) :: rat) \<le> of_int (M * 2 ^ ?k)"
      by (simp only: of_int_le_iff)
    then have "rat_of_int (round_even (x / 2 powi e)) * 2 powi e \<le> of_int M"
      by (simp add: pw field_simps)
    with 3 rb show ?thesis by simp
  next
    case 4
    with emin have e: "e = ilog2 x - (int p - 1)" by (simp add: e_def)
    from 4 have x0: "x \<noteq> 0" by simp
    from ilog2_lower [OF x0] 4 have lo: "2 powi ilog2 x \<le> x" by simp
    from 4 e p have lp: "int p \<le> ilog2 x" by simp
    then have "(2::rat) powi int p \<le> 2 powi ilog2 x"
      by (intro power_int_increasing) simp_all
    with lo have "2 ^ p \<le> x" by simp
    moreover from M have "(of_int M :: rat) \<le> 2 ^ p"
      by (metis of_int_le_iff of_int_numeral of_int_power)
    ultimately have xM: "x = 2 ^ p" "of_int M = (2::rat) ^ p" using x by linarith+
    have "ilog2 x < int p + 1"
    proof (rule ccontr)
      assume "\<not> ilog2 x < int p + 1"
      then have "(2::rat) powi (int p + 1) \<le> 2 powi ilog2 x"
        by (intro power_int_increasing) simp_all
      moreover have "(2::rat) powi (int p + 1) = 2 * 2 ^ p" by (simp add: power_int_add)
      moreover have "0 < (2::rat) ^ p" by simp
      ultimately show False using lo xM(1) by linarith
    qed
    with lp have "ilog2 x = int p" by simp
    with e have e1: "e = 1" by simp
    obtain p' where p': "p = Suc p'" using p by (cases p) auto
    have "x / 2 powi e = of_int (2 ^ p')" by (simp add: xM e1 p')
    then have "round_even (x / 2 powi e) = 2 ^ p'" by (simp only: round_even_of_int)
    with rb [OF x0] have "round_binary p emin x = 2 ^ p" by (simp add: e1 p')
    with xM show ?thesis by simp
  qed
qed

lemma round_binary_lower:
  assumes M: "0 \<le> M" "M \<le> 2 ^ p" and emin: "emin \<le> 0" and p: "0 < p" and x: "- of_int M \<le> x"
  shows "- of_int M \<le> round_binary p emin x"
proof -
  define e where "e = max (ilog2 x - (int p - 1)) emin"
  have rb: "round_binary p emin x = of_int (round_even (x / 2 powi e)) * 2 powi e" if "x \<noteq> 0"
    using that by (simp add: round_binary_def e_def Let_def)
  consider "x = 0" | "0 < x" | "x < 0" "e \<le> 0" | "x < 0" "0 < e" by linarith
  then show ?thesis
  proof cases
    case 1
    with M show ?thesis by (simp add: round_binary_def)
  next
    case 2
    then have "of_int 0 \<le> x / 2 powi e" using powi_gt0 [of e] by (simp add: field_simps)
    then have "0 \<le> round_even (x / 2 powi e)" by (rule round_even_lower)
    then have "0 \<le> rat_of_int (round_even (x / 2 powi e)) * 2 powi e"
      using powi_gt0 [of e] by (simp add: zero_le_mult_iff)
    with 2 M rb show ?thesis by simp
  next
    case 3
    let ?k = "nat (- e)"
    have pw: "(2::rat) powi e = 1 / 2 ^ ?k" using 3 by (simp add: powi_nonpos)
    have "of_int (- M * 2 ^ ?k) = - of_int M * (2::rat) ^ ?k" by simp
    also have "\<dots> \<le> x * 2 ^ ?k" using x by (intro mult_right_mono) simp_all
    also have "\<dots> = x / 2 powi e" by (simp add: pw)
    finally have "- M * 2 ^ ?k \<le> round_even (x / 2 powi e)" by (rule round_even_lower)
    then have "(of_int (- M * 2 ^ ?k) :: rat) \<le> of_int (round_even (x / 2 powi e))"
      by (simp only: of_int_le_iff)
    then have "- rat_of_int M \<le> rat_of_int (round_even (x / 2 powi e)) * 2 powi e"
      by (simp add: pw field_simps)
    with 3 rb show ?thesis by simp
  next
    case 4
    with emin have e: "e = ilog2 x - (int p - 1)" by (simp add: e_def)
    from 4 have x0: "x \<noteq> 0" by simp
    from ilog2_lower [OF x0] 4 have lo: "2 powi ilog2 x \<le> - x" by simp
    from 4 e p have lp: "int p \<le> ilog2 x" by simp
    then have "(2::rat) powi int p \<le> 2 powi ilog2 x"
      by (intro power_int_increasing) simp_all
    with lo have "2 ^ p \<le> - x" by simp
    moreover from M have "(of_int M :: rat) \<le> 2 ^ p"
      by (metis of_int_le_iff of_int_numeral of_int_power)
    ultimately have xM: "x = - (2 ^ p)" "of_int M = (2::rat) ^ p" using x by linarith+
    have "ilog2 x < int p + 1"
    proof (rule ccontr)
      assume "\<not> ilog2 x < int p + 1"
      then have "(2::rat) powi (int p + 1) \<le> 2 powi ilog2 x"
        by (intro power_int_increasing) simp_all
      moreover have "(2::rat) powi (int p + 1) = 2 * 2 ^ p" by (simp add: power_int_add)
      moreover have "0 < (2::rat) ^ p" by simp
      ultimately show False using lo xM(1) by linarith
    qed
    with lp have "ilog2 x = int p" by simp
    with e have e1: "e = 1" by simp
    obtain p' where p': "p = Suc p'" using p by (cases p) auto
    have "x / 2 powi e = of_int (- (2 ^ p'))" by (simp add: xM e1 p')
    then have "round_even (x / 2 powi e) = - (2 ^ p')" by (simp only: round_even_of_int)
    with rb [OF x0] have "round_binary p emin x = - (2 ^ p)" by (simp add: e1 p')
    with xM show ?thesis by simp
  qed
qed

lemma f32_upper: "0 \<le> M \<Longrightarrow> M \<le> 16777216 \<Longrightarrow> x \<le> of_int M \<Longrightarrow> f32 x \<le> of_int M"
  unfolding f32_def by (rule round_binary_upper) simp_all

lemma f32_lower: "0 \<le> M \<Longrightarrow> M \<le> 16777216 \<Longrightarrow> - of_int M \<le> x \<Longrightarrow> - of_int M \<le> f32 x"
  unfolding f32_def by (rule round_binary_lower) simp_all

lemma round_away_lower: "of_int n \<le> q \<Longrightarrow> n \<le> round_away q"
proof -
  assume nq: "of_int n \<le> q"
  show ?thesis
  proof (cases "0 \<le> q")
    case True
    from nq have "of_int n \<le> q + 1 / 2" by simp
    then have "n \<le> \<lfloor>q + 1 / 2\<rfloor>" by (simp only: le_floor_iff)
    with True show ?thesis by (simp add: round_away_def)
  next
    case False
    from nq have "- q + 1 / 2 < of_int (- n) + 1" by simp
    then have "\<lfloor>- q + 1 / 2\<rfloor> < - n + 1" by (simp only: floor_less_iff of_int_add of_int_1)
    with False show ?thesis by (simp add: round_away_def)
  qed
qed

lemma round_away_upper: "q \<le> of_int n \<Longrightarrow> round_away q \<le> n"
proof -
  assume qn: "q \<le> of_int n"
  show ?thesis
  proof (cases "0 \<le> q")
    case True
    from qn have "q + 1 / 2 < of_int n + 1" by simp
    then have "\<lfloor>q + 1 / 2\<rfloor> < n + 1" by (simp only: floor_less_iff of_int_add of_int_1)
    with True show ?thesis by (simp add: round_away_def)
  next
    case False
    from qn have "of_int (- n) \<le> - q + 1 / 2" by simp
    then have "- n \<le> \<lfloor>- q + 1 / 2\<rfloor>" by (simp only: le_floor_iff)
    with False show ?thesis by (simp add: round_away_def)
  qed
qed

lemma round32_2_bounds:
  assumes "0 \<le> L" "L \<le> 16777216" "0 \<le> U" "U \<le> 16777216"
    and "- of_int L \<le> v" "v \<le> of_int U"
  shows "- of_int L \<le> round32 v 2 \<and> round32 v 2 \<le> of_int U"
proof -
  let ?r = "round_away (v * 10 ^ 2)"
  from assms(5) have "of_int (- (L * 100)) \<le> v * 10 ^ 2" by simp
  then have "- (L * 100) \<le> ?r" by (rule round_away_lower)
  then have "rat_of_int (- (L * 100)) \<le> of_int ?r" by (simp only: of_int_le_iff)
  then have lo: "- of_int L \<le> rat_of_int ?r / 10 ^ 2" by simp
  from assms(6) have "v * 10 ^ 2 \<le> of_int (U * 100)" by simp
  then have "?r \<le> U * 100" by (rule round_away_upper)
  then have "rat_of_int ?r \<le> of_int (U * 100)" by (simp only: of_int_le_iff)
  then have hi: "rat_of_int ?r / 10 ^ 2 \<le> of_int U" by simp
  from f32_lower [OF assms(1,2) lo] f32_upper [OF assms(3,4) hi]
  show ?thesis by (simp add: round32_def)
qed

lemma float32_of_uint16_bounds: "0 \<le> float32_of_uint16 u \<and> float32_of_uint16 u \<le> 65535"
proof -
  define n where "n = uint u"
  have "n < 65536" "0 \<le> n" using unsigned_less [of u, where ?'a = int] by (simp_all add: n_def)
  then have "rat_of_int n \<le> of_int 65535" "- of_int 0 \<le> rat_of_int n" by simp_all
  from f32_upper [OF _ _ this(1)] f32_lower [OF _ _ this(2)]
  have "0 \<le> f32 (of_int n) \<and> f32 (of_int n) \<le> 65535" by simp
  then show ?thesis unfolding float32_of_uint16_def n_def .
qed

lemma scaled_code_bounds:
  assumes k: "0 \<le> k" "k \<le> 256"
  shows "0 \<le> f32_div (f32_mul (float32_of_uint16 u) (of_int k)) (0x10000 - 1)
     \<and> f32_div (f32_mul (float32_of_uint16 u) (of_int k)) (0x10000 - 1) \<le> of_int k"
proof -
  let ?a = "float32_of_uint16 u"
  let ?b = "f32_mul ?a (of_int k)"
  from float32_of_uint16_bounds [of u] have a: "0 \<le> ?a" "?a \<le> 65535" by simp_all
  from a k have "- of_int 0 \<le> ?a * of_int k" by simp
  from f32_lower [OF _ _ this] have b0: "0 \<le> ?b" by (simp add: f32_mul_def)
  from a(2) k have "?a * of_int k \<le> 65535 * of_int k" by (intro mult_right_mono) simp_all
  then have "?a * of_int k \<le> of_int (65535 * k)" by simp
  from f32_upper [OF _ _ this] k have b1: "?b \<le> of_int (65535 * k)" by (simp add: f32_mul_def)
  from b0 have "- of_int 0 \<le> ?b / (0x10000 - 1)" by simp
  from f32_lower [OF _ _ this] have c0: "0 \<le> f32_div ?b (0x10000 - 1)" by (simp add: f32_div_def)
  from b1 have "?b / (0x10000 - 1) \<le> of_int k" by simp
  from f32_upper [OF _ _ this] k have c1: "f32_div ?b (0x10000 - 1) \<le> of_int k"
    by (simp add: f32_div_def)
  from c0 c1 show ?thesis by simp
qed

text \<open>Some floats: a tenth, a third, and two ties above \<open>2^24\<close>.\<close>

lemma f32_samples:
  "f32 (1 / 10) = 13421773 / 134217728 \<and> f32 (1 / 3) = 11184811 / 33554432
   \<and> f32 16777217 = 16777216 \<and> f32 (- 16777219) = - 16777220"
  by code_simp

lemma conversion_6000: "uncompTemperatureToCelsius 0x6000 = 10816061 / 524288"
  by code_simp

lemma conversion_4000: "uncompHumidityToRelativeHumidity 0x4000 = 25"
  by code_simp

lemma nearest_20_63: "f32 (2063 / 100) = 10816061 / 524288"
  by code_simp

lemma conversion_ends:
  "uncompTemperatureToCelsius 0 = - 45 \<and> uncompTemperatureToCelsius 0xFFFF = 130
   \<and> uncompHumidityToRelativeHumidity 0 = 0 \<and> uncompHumidityToRelativeHumidity 0xFFFF = 100"
  by code_simp

subsection \<open>The error of rounding\<close>

lemma round_even_error: "\<bar>rat_of_int (round_even q) - q\<bar> \<le> 1 / 2"
proof -
  have "rat_of_int \<lfloor>q\<rfloor> \<le> q" "q < rat_of_int \<lfloor>q\<rfloor> + 1" by linarith+
  then show ?thesis by (auto simp: round_even_def Let_def abs_le_iff)
qed

lemma round_away_error: "\<bar>rat_of_int (round_away q) - q\<bar> \<le> 1 / 2"
proof (cases "0 \<le> q")
  case True
  define k where "k = \<lfloor>q + 1 / 2\<rfloor>"
  have "rat_of_int k \<le> q + 1 / 2" "q + 1 / 2 < rat_of_int k + 1"
    unfolding k_def by linarith+
  moreover have "round_away q = k" using True by (simp add: round_away_def k_def)
  ultimately show ?thesis by linarith
next
  case False
  define k where "k = \<lfloor>- q + 1 / 2\<rfloor>"
  have "rat_of_int k \<le> - q + 1 / 2" "- q + 1 / 2 < rat_of_int k + 1"
    unfolding k_def by linarith+
  moreover have "rat_of_int (round_away q) = - rat_of_int k"
    using False by (simp add: round_away_def k_def)
  ultimately show ?thesis by linarith
qed

lemma round_binary_error:
  assumes "x \<noteq> 0"
  shows "\<bar>round_binary p emin x - x\<bar> \<le> 2 powi (max (ilog2 x - (int p - 1)) emin) / 2"
proof -
  define e where "e = max (ilog2 x - (int p - 1)) emin"
  have pos: "0 < (2::rat) powi e" by (rule powi_gt0)
  have "round_binary p emin x - x = (rat_of_int (round_even (x / 2 powi e)) - x / 2 powi e) * 2 powi e"
    using assms pos by (simp add: round_binary_def e_def Let_def field_simps)
  then have "\<bar>round_binary p emin x - x\<bar> = \<bar>rat_of_int (round_even (x / 2 powi e)) - x / 2 powi e\<bar> * 2 powi e"
    using pos by (simp add: abs_mult)
  also have "\<dots> \<le> 1 / 2 * 2 powi e"
    using round_even_error [of "x / 2 powi e"] pos by (intro mult_right_mono) simp_all
  finally show ?thesis by (simp add: e_def)
qed

text \<open>A float below \<open>2^n\<close> in magnitude is within \<open>2^(n - 25)\<close> of what it rounds.\<close>

lemma f32_error:
  assumes "\<bar>x\<bar> < 2 ^ n"
  shows "\<bar>f32 x - x\<bar> \<le> 2 ^ n / 2 ^ 25"
proof (cases "x = 0")
  case True
  then show ?thesis by (simp add: f32_def round_binary_def)
next
  case False
  have "ilog2 x < int n"
  proof (rule ccontr)
    assume "\<not> ilog2 x < int n"
    then have "(2::rat) powi int n \<le> 2 powi ilog2 x"
      by (intro power_int_increasing) simp_all
    with ilog2_lower [OF False] assms show False by simp
  qed
  then have "max (ilog2 x - (int 24 - 1)) (- 149) \<le> int n - 24" by simp
  then have "(2::rat) powi (max (ilog2 x - (int 24 - 1)) (- 149)) \<le> 2 powi (int n - 24)"
    by (intro power_int_increasing) simp_all
  also have "\<dots> = 2 ^ n / 2 ^ 24" by (simp add: power_int_diff)
  finally have "(2::rat) powi (max (ilog2 x - (int 24 - 1)) (- 149)) / 2 \<le> 2 ^ n / 2 ^ 25"
    by simp
  with round_binary_error [OF False, of 24 "- 149"] show ?thesis
    unfolding f32_def by linarith
qed

lemma f32_between:
  assumes "0 \<le> L" "L \<le> 16777216" "0 \<le> U" "U \<le> 16777216"
    and "- of_int L \<le> x" "x \<le> of_int U"
  shows "- of_int L \<le> f32 x \<and> f32 x \<le> of_int U"
  using f32_lower [OF assms(1,2,5)] f32_upper [OF assms(3,4,6)] by simp

text \<open>
  The two decimal places: within half a hundredth of the argument, and within the same
  integer bounds.
\<close>

lemma round32_2_error:
  assumes "\<bar>v\<bar> \<le> 200"
  shows "\<bar>round32 v 2 - v\<bar> \<le> 1 / 200 + 1 / 131072"
proof -
  define k where "k = round_away (v * 10 ^ 2)"
  from round_away_error [of "v * 10 ^ 2"] have e: "\<bar>rat_of_int k - v * 100\<bar> \<le> 1 / 2"
    by (simp add: k_def)
  then have r: "\<bar>rat_of_int k / 100 - v\<bar> \<le> 1 / 200" by linarith
  with assms have "\<bar>rat_of_int k / 100\<bar> < 256" by linarith
  then have "\<bar>rat_of_int k / 100\<bar> < 2 ^ 8" by simp
  from f32_error [OF this] have "\<bar>f32 (rat_of_int k / 100) - rat_of_int k / 100\<bar> \<le> 1 / 131072"
    by simp
  with r have "\<bar>f32 (rat_of_int k / 100) - v\<bar> \<le> 1 / 200 + 1 / 131072" by linarith
  then show ?thesis by (simp add: round32_def k_def)
qed

lemma scaled_code_error:
  assumes k: "0 \<le> k" "k \<le> 255"
  shows "\<bar>f32_div (f32_mul (float32_of_uint16 u) (of_int k)) (0x10000 - 1)
           - rat_of_int (uint u) * of_int k / 65535\<bar> \<le> 1 / 32000"
proof -
  define n where "n = uint u"
  define c where "c = rat_of_int n"
  define a where "a = float32_of_uint16 u"
  define b where "b = f32_mul a (of_int k)"
  define q where "q = f32_div b (0x10000 - 1)"
  define K where "K = rat_of_int k"
  from k have K: "0 \<le> K" "K \<le> 255" by (simp_all add: K_def)
  have "0 \<le> n" "n < 65536" using unsigned_less [of u, where ?'a = int] by (simp_all add: n_def)
  then have c: "0 \<le> c" "c \<le> 65535" by (simp_all add: c_def)
  then have "\<bar>c\<bar> < 2 ^ 16" by simp
  from f32_error [OF this] have ea: "\<bar>a - c\<bar> \<le> 1 / 512"
    by (simp add: a_def float32_of_uint16_def c_def n_def)
  from float32_of_uint16_bounds [of u] have a: "0 \<le> a" "a \<le> 65535" by (simp_all add: a_def)
  have aK: "0 \<le> a * K" "a * K \<le> 65535 * 255"
    using a K by (simp, intro mult_mono) simp_all
  then have "\<bar>a * K\<bar> < 2 ^ 24" by simp
  from f32_error [OF this] have eb: "\<bar>b - a * K\<bar> \<le> 1 / 2"
    by (simp add: b_def f32_mul_def K_def)
  have "\<bar>a * K - c * K\<bar> = \<bar>a - c\<bar> * K" using K by (simp add: abs_mult flip: left_diff_distrib)
  also have "\<dots> \<le> 1 / 512 * 255" using ea K by (intro mult_mono) simp_all
  finally have "\<bar>a * K - c * K\<bar> \<le> 255 / 512" by simp
  with eb have ebc: "\<bar>b - c * K\<bar> \<le> 1" by linarith
  have cK: "0 \<le> c * K" "c * K \<le> 65535 * 255"
    using c K by (simp, intro mult_mono) simp_all
  with ebc have "\<bar>b / 65535\<bar> < 512" by linarith
  then have "\<bar>b / 65535\<bar> < 2 ^ 9" by simp
  from f32_error [OF this] have eq: "\<bar>q - b / 65535\<bar> \<le> 1 / 65536"
    by (simp add: q_def f32_div_def)
  from ebc have "\<bar>b / 65535 - c * K / 65535\<bar> \<le> 1 / 65535" by linarith
  with eq have "\<bar>q - c * K / 65535\<bar> \<le> 1 / 32000" by linarith
  then show ?thesis by (simp add: q_def b_def a_def c_def K_def n_def)
qed

text \<open>
  The conversions are the formulas of the datasheet, \<open>175 c / 65535 - 45\<close> and
  \<open>100 c / 65535\<close>, to within half a hundredth and the rounding of the floats.
\<close>

lemma temperature_accuracy:
  "\<bar>uncompTemperatureToCelsius ut - (rat_of_int (uint ut) * 175 / 65535 - 45)\<bar> \<le> 51 / 10000"
proof -
  define q where "q = f32_div (f32_mul (float32_of_uint16 ut) 175) (0x10000 - 1)"
  define T where "T = rat_of_int (uint ut) * 175 / 65535"
  from scaled_code_error [of 175 ut] have eq: "\<bar>q - T\<bar> \<le> 1 / 32000"
    by (simp add: q_def T_def)
  from scaled_code_bounds [of 175 ut] have qb: "0 \<le> q" "q \<le> 175" by (simp_all add: q_def)
  then have "\<bar>q - 45\<bar> < 2 ^ 8" by simp
  from f32_error [OF this] have ed: "\<bar>f32_sub q 45 - (q - 45)\<bar> \<le> 1 / 131072"
    by (simp add: f32_sub_def)
  from qb have "- rat_of_int 45 \<le> q - 45" "q - 45 \<le> rat_of_int 130" by simp_all
  from f32_between [OF _ _ _ _ this] have "- 45 \<le> f32_sub q 45 \<and> f32_sub q 45 \<le> 130"
    by (simp add: f32_sub_def)
  then have "\<bar>f32_sub q 45\<bar> \<le> 200" by linarith
  from round32_2_error [OF this]
  have "\<bar>round32 (f32_sub q 45) 2 - f32_sub q 45\<bar> \<le> 1 / 200 + 1 / 131072" .
  with ed eq have "\<bar>round32 (f32_sub q 45) 2 - (T - 45)\<bar> \<le> 51 / 10000" by linarith
  then show ?thesis by (simp add: uncompTemperatureToCelsius_def q_def T_def)
qed

lemma humidity_accuracy:
  "\<bar>uncompHumidityToRelativeHumidity uh - rat_of_int (uint uh) * 100 / 65535\<bar> \<le> 51 / 10000"
proof -
  define q where "q = f32_div (f32_mul (float32_of_uint16 uh) 100) (0x10000 - 1)"
  define H where "H = rat_of_int (uint uh) * 100 / 65535"
  from scaled_code_error [of 100 uh] have eq: "\<bar>q - H\<bar> \<le> 1 / 32000"
    by (simp add: q_def H_def)
  from scaled_code_bounds [of 100 uh] have "0 \<le> q \<and> q \<le> 100" by (simp add: q_def)
  then have "\<bar>q\<bar> \<le> 200" by linarith
  from round32_2_error [OF this] have "\<bar>round32 q 2 - q\<bar> \<le> 1 / 200 + 1 / 131072" .
  with eq have "\<bar>round32 q 2 - H\<bar> \<le> 51 / 10000" by linarith
  then show ?thesis by (simp add: uncompHumidityToRelativeHumidity_def q_def H_def)
qed

subsection \<open>The range of the conversions\<close>

text \<open>
  C9. For every 16-bit code the temperature conversion gives a value from \<open>-45\<close> to
  \<open>130\<close> and the humidity conversion a value from \<open>0\<close> to \<open>100\<close>, the rounding of
  the float operations and of the two decimal places included.
\<close>

theorem conversions_within_physical_range:
  "- 45 \<le> uncompTemperatureToCelsius ut \<and> uncompTemperatureToCelsius ut \<le> 130
   \<and> 0 \<le> uncompHumidityToRelativeHumidity uh \<and> uncompHumidityToRelativeHumidity uh \<le> 100"
proof -
  let ?c = "f32_div (f32_mul (float32_of_uint16 ut) 175) (0x10000 - 1)"
  from scaled_code_bounds [of 175 ut] have c: "0 \<le> ?c" "?c \<le> 175" by simp_all
  then have "- of_int 45 \<le> ?c - 45" "?c - 45 \<le> of_int 130" by simp_all
  from f32_lower [OF _ _ this(1)] f32_upper [OF _ _ this(2)]
  have d: "- of_int 45 \<le> f32_sub ?c 45" "f32_sub ?c 45 \<le> of_int 130"
    by (simp_all add: f32_sub_def)
  from round32_2_bounds [OF _ _ _ _ d]
  have t: "- 45 \<le> uncompTemperatureToCelsius ut \<and> uncompTemperatureToCelsius ut \<le> 130"
    by (simp add: uncompTemperatureToCelsius_def)
  let ?h = "f32_div (f32_mul (float32_of_uint16 uh) 100) (0x10000 - 1)"
  from scaled_code_bounds [of 100 uh] have "- of_int 0 \<le> ?h" "?h \<le> of_int 100" by simp_all
  from round32_2_bounds [OF _ _ _ _ this]
  have "0 \<le> uncompHumidityToRelativeHumidity uh \<and> uncompHumidityToRelativeHumidity uh \<le> 100"
    by (simp add: uncompHumidityToRelativeHumidity_def)
  with t show ?thesis by simp
qed

theorem conversions_within_physical_range_witness:
  "- 45 \<le> uncompTemperatureToCelsius 0x6000 \<and> uncompTemperatureToCelsius 0x6000 \<le> 130
   \<and> 0 \<le> uncompHumidityToRelativeHumidity 0x4000 \<and> uncompHumidityToRelativeHumidity 0x4000 \<le> 100"
  using conversions_within_physical_range [of "0x6000" "0x4000"] by simp

subsection \<open>A single-shot read of the codes 0x6000 and 0x4000\<close>

lemma getU16BE_6000: "getU16BE [0x60, 0x00] = 0x6000" "getU16BE [0x40, 0x00] = 0x4000"
  by (simp_all add: getU16BE_def)

text \<open>
  C5, as claimed, fails: on a bus that delivers the codes \<open>0x6000\<close> and \<open>0x4000\<close> with
  right checksums, the single-shot read with low repeatability returns the float nearest
  to \<open>20.63\<close> and \<open>25\<close>, neither within half a hundredth of \<open>27.87\<close> and
  \<open>25.10\<close>.
\<close>

theorem single_shot_low_is_not_27_87:
  "fst (ReadTemperatureAndRelativeHumidity codes_6000_4000_env NewSHT3X [] RepeatabilityLow)
     = Inr (10816061 / 524288, 25)
   \<and> \<not> \<bar>10816061 / 524288 - 2787 / 100\<bar> \<le> (1 / 200 :: rat)
   \<and> \<not> \<bar>25 - 2510 / 100\<bar> \<le> (1 / 200 :: rat)"
proof -
  have "fst (ReadTemperatureAndRelativeHumidity codes_6000_4000_env NewSHT3X [] RepeatabilityLow)
     = Inr (10816061 / 524288, 25)"
    by code_simp
  then show ?thesis by simp
qed

text \<open>
  C5, amended. The read returns the temperature \<open>20.63\<close> (the float nearest to it) and
  the relative humidity \<open>25.00\<close>.
\<close>

theorem single_shot_low_at_6000_4000:
  assumes wr: "write_result e tr CMD_SINGLE_MEASURE_LOW = None"
    and rd: "read_result e (tr @ [BusWrite CMD_SINGLE_MEASURE_LOW, Sleep 4500000]) 6 =
      Inr [0x60, 0x00, calcCRC_SHT3X e 0xFF [0x60, 0x00],
           0x40, 0x00, calcCRC_SHT3X e 0xFF [0x40, 0x00]]"
  shows "ReadTemperatureAndRelativeHumidity e v tr RepeatabilityLow =
      (Inr (f32 (2063 / 100), 25), v\<lparr>lastCmd := Some CMD_SINGLE_MEASURE_LOW\<rparr>,
       tr @ [BusWrite CMD_SINGLE_MEASURE_LOW, Sleep 4500000, BusRead 6])
    \<and> f32 (2063 / 100) = 10816061 / 524288
    \<and> \<bar>f32 (2063 / 100) - 2063 / 100\<bar> < 1 / 1000000"
proof -
  have im: "initiateMeasure e v tr (Some CMD_SINGLE_MEASURE_LOW) RepeatabilityLow =
      (None, v\<lparr>lastCmd := Some CMD_SINGLE_MEASURE_LOW\<rparr>,
       tr @ [BusWrite CMD_SINGLE_MEASURE_LOW, Sleep 4500000])"
    using wr
    by (simp add: initiateMeasure_def WriteBytes_def frame_of_def sleep_def GetMeasureTime_def
        Microsecond_def)
  have rdc: "readDataWithCRCCheck e (tr @ [BusWrite CMD_SINGLE_MEASURE_LOW, Sleep 4500000]) 2 =
      (Inr [0x6000, 0x4000], tr @ [BusWrite CMD_SINGLE_MEASURE_LOW, Sleep 4500000, BusRead 6])"
    using readData_two_blocks [OF rd] by (simp add: getU16BE_6000)
  have "ReadUncompTemperatureAndHumidity e v tr RepeatabilityLow =
      (Inr (0x6000, 0x4000), v\<lparr>lastCmd := Some CMD_SINGLE_MEASURE_LOW\<rparr>,
       tr @ [BusWrite CMD_SINGLE_MEASURE_LOW, Sleep 4500000, BusRead 6])"
    by (simp add: ReadUncompTemperatureAndHumidity_def im rdc index01_def)
  then have "ReadTemperatureAndRelativeHumidity e v tr RepeatabilityLow =
      (Inr (f32 (2063 / 100), 25), v\<lparr>lastCmd := Some CMD_SINGLE_MEASURE_LOW\<rparr>,
       tr @ [BusWrite CMD_SINGLE_MEASURE_LOW, Sleep 4500000, BusRead 6])"
    by (simp add: ReadTemperatureAndRelativeHumidity_def conversion_6000 conversion_4000
        nearest_20_63)
  then show ?thesis by (simp add: nearest_20_63)
qed

theorem single_shot_low_at_6000_4000_witness:
  "ReadTemperatureAndRelativeHumidity codes_6000_4000_env NewSHT3X [] RepeatabilityLow =
      (Inr (f32 (2063 / 100), 25), NewSHT3X\<lparr>lastCmd := Some CMD_SINGLE_MEASURE_LOW\<rparr>,
       [BusWrite CMD_SINGLE_MEASURE_LOW, Sleep 4500000, BusRead 6])"
  using single_shot_low_at_6000_4000 [of codes_6000_4000_env "[]" NewSHT3X]
  by (simp add: codes_6000_4000_env_def sample_env_def)

subsection \<open>Reading alert limits\<close>

lemma getU16BE_bytes: "getU16BE [ucast (drop_bit 8 w), ucast w] = (w :: 16 word)"
proof -
  have "push_bit 8 (ucast (ucast (drop_bit 8 w :: 16 word) :: 8 word) :: 16 word) + ucast (ucast w :: 8 word)
      = push_bit 8 (ucast (ucast (drop_bit 8 w :: 16 word) :: 8 word) :: 16 word) OR ucast (ucast w :: 8 word)"
    by (rule disjunctive_add_eq_or) (simp add: bit_eq_iff bit_simps)
  also have "\<dots> = w"
    by (rule bit_word_eqI) (auto simp: bit_simps)
  finally show ?thesis by (simp add: getU16BE_def)
qed

lemma low9: "push_bit 7 ((w :: 16 word) AND 0x01FF) = push_bit 7 (take_bit 9 w)"
proof -
  have "(0x01FF :: 16 word) = mask 9" by (simp add: mask_eq_exp_minus_1)
  then show ?thesis by (simp add: take_bit_eq_mask)
qed

lemma top7: "(w :: 16 word) AND 0xFE00 = push_bit 9 (drop_bit 9 w)"
proof -
  have "(0xFE00 :: 16 word) = NOT (mask 9)" by (simp add: mask_eq_exp_minus_1)
  then have "w AND 0xFE00 = w AND NOT (mask 9)" by simp
  also have "\<dots> = push_bit 9 (drop_bit 9 w)"
    by (rule bit_word_eqI) (auto simp: bit_simps)
  finally show ?thesis .
qed

text \<open>
  C8. When the command is written and the bus delivers the block of a word \<open>w\<close> with the
  right checksum, the alert read takes \<open>w AND 0xFE00\<close> as humidity code (the top 7 bits,
  the low 9 bits zero) and \<open>(w AND 0x01FF) << 7\<close> as temperature code (the low 9 bits,
  shifted left by 7), and returns the two conversions of these codes: the temperature within
  \<open>0.0051\<close> of \<open>175 c / 65535 - 45\<close> and the humidity within \<open>0.0051\<close> of
  \<open>100 c / 65535\<close>, for the respective code \<open>c\<close>, each computed in floats as
  the source writes it and rounded to two decimal places.
\<close>

theorem alert_read_splits_and_converts:
  assumes wr: "write_result e tr (frame_of cmd) = None"
    and rd: "read_result e (tr @ [BusWrite (frame_of cmd)]) 3 =
      Inr [ucast (drop_bit 8 w), ucast w, calcCRC_SHT3X e 0xFF [ucast (drop_bit 8 w), ucast w]]"
  shows "readAlertData e v tr cmd =
      (Inr (uncompTemperatureToCelsius (push_bit 7 (w AND 0x01FF)),
            uncompHumidityToRelativeHumidity (w AND 0xFE00)),
       v\<lparr>lastCmd := cmd\<rparr>, tr @ [BusWrite (frame_of cmd), BusRead 3])
    \<and> w AND 0xFE00 = push_bit 9 (drop_bit 9 w)
    \<and> push_bit 7 (w AND 0x01FF) = push_bit 7 (take_bit 9 w)
    \<and> \<bar>uncompTemperatureToCelsius (push_bit 7 (w AND 0x01FF))
         - (rat_of_int (uint (push_bit 7 (w AND 0x01FF))) * 175 / 65535 - 45)\<bar> \<le> 51 / 10000
    \<and> \<bar>uncompHumidityToRelativeHumidity (w AND 0xFE00)
         - rat_of_int (uint (w AND 0xFE00)) * 100 / 65535\<bar> \<le> 51 / 10000
    \<and> uncompTemperatureToCelsius (push_bit 7 (w AND 0x01FF)) =
        round32 (f32_sub (f32_div (f32_mul (float32_of_uint16 (push_bit 7 (w AND 0x01FF))) 175)
          65535) 45) 2
    \<and> uncompHumidityToRelativeHumidity (w AND 0xFE00) =
        round32 (f32_div (f32_mul (float32_of_uint16 (w AND 0xFE00)) 100) 65535) 2"
proof -
  have formulas:
    "uncompTemperatureToCelsius (push_bit 7 (w AND 0x01FF)) =
        round32 (f32_sub (f32_div (f32_mul (float32_of_uint16 (push_bit 7 (w AND 0x01FF))) 175)
          65535) 45) 2"
    "uncompHumidityToRelativeHumidity (w AND 0xFE00) =
        round32 (f32_div (f32_mul (float32_of_uint16 (w AND 0xFE00)) 100) 65535) 2"
    by (simp_all add: uncompTemperatureToCelsius_def uncompHumidityToRelativeHumidity_def)
  have "readDataWithCRCCheck e (tr @ [BusWrite (frame_of cmd)]) 1 =
      (Inr [w], tr @ [BusWrite (frame_of cmd)] @ [BusRead 3])"
    using readData_one_block [OF rd] by (simp add: getU16BE_bytes)
  with wr have "readAlertData e v tr cmd =
      (Inr (uncompTemperatureToCelsius (push_bit 7 (w AND 0x01FF)),
            uncompHumidityToRelativeHumidity (w AND 0xFE00)),
       v\<lparr>lastCmd := cmd\<rparr>, tr @ [BusWrite (frame_of cmd), BusRead 3])"
    by (simp add: readAlertData_def WriteBytes_def Let_def)
  with top7 [of w] low9 [of w] formulas
    temperature_accuracy [of "push_bit 7 (w AND 0x01FF)"] humidity_accuracy [of "w AND 0xFE00"]
  show ?thesis by (simp only: simp_thms)
qed

theorem alert_read_splits_and_converts_witness:
  "readAlertData (sample_env (\<lambda>h n. Inr (block 0x8133)) (\<lambda>h d. None)) NewSHT3X []
      (Some CMD_ALERT_READ_HIGH_SET)
   = (Inr (7855145 / 131072, 50),
      NewSHT3X\<lparr>lastCmd := Some CMD_ALERT_READ_HIGH_SET\<rparr>,
      [BusWrite CMD_ALERT_READ_HIGH_SET, BusRead 3])
   \<and> \<bar>7855145 / 131072 - (rat_of_int (uint (0x9980 :: uint16)) * 175 / 65535 - 45)\<bar> \<le> 51 / 10000
   \<and> \<bar>50 - rat_of_int (uint (0x8000 :: uint16)) * 100 / 65535\<bar> \<le> (51 / 10000 :: rat)"
proof -
  have t: "uncompTemperatureToCelsius 0x9980 = 7855145 / 131072" by code_simp
  have h: "uncompHumidityToRelativeHumidity 0x8000 = 50" by code_simp
  from alert_read_splits_and_converts
    [of "sample_env (\<lambda>h n. Inr (block 0x8133)) (\<lambda>h d. None)" "[]"
        "Some CMD_ALERT_READ_HIGH_SET" "0x8133" NewSHT3X]
  show ?thesis by (simp add: sample_env_def block_def frame_of_def t h)
qed

subsection \<open>The session check of the fetch\<close>

text \<open>
  C1, as claimed, fails: \<open>lastCmd\<close> is not the opcode written to the bus last. After a
  start of periodic measurement and a \<open>GetHeaterStatus\<close>, the frame written last is the
  status-read opcode, which differs from the periodic command implied by the remembered
  cadence and repeatability; yet the fetch writes the fetch opcode and returns data.
\<close>

theorem fetch_after_status_read_succeeds:
  "StartPeriodicTemperatureAndHumidityMeasure codes_6000_4000_env NewSHT3X []
       Periodic1MPS RepeatabilityLow
     = (None, running_1mps_low, [BusWrite CMD_PERIOD_MEASURE_1MPS_LOW, Sleep 4500000])
   \<and> GetHeaterStatus codes_6000_4000_env running_1mps_low
       [BusWrite CMD_PERIOD_MEASURE_1MPS_LOW, Sleep 4500000]
     = (Inr True, running_1mps_low\<lparr>lastStatusReg := Some 0x6000\<rparr>,
        [BusWrite CMD_PERIOD_MEASURE_1MPS_LOW, Sleep 4500000,
         BusWrite CMD_READ_STATUS_REG, BusRead 3])
   \<and> last_written [BusWrite CMD_PERIOD_MEASURE_1MPS_LOW, Sleep 4500000,
         BusWrite CMD_READ_STATUS_REG, BusRead 3] = Some CMD_READ_STATUS_REG
   \<and> getPeriodicMeasurementCommand Periodic1MPS RepeatabilityLow \<noteq> Some CMD_READ_STATUS_REG
   \<and> FetchUncompTemperatureAndHumidityWithContext codes_6000_4000_env
       (running_1mps_low\<lparr>lastStatusReg := Some 0x6000\<rparr>)
       [BusWrite CMD_PERIOD_MEASURE_1MPS_LOW, Sleep 4500000,
        BusWrite CMD_READ_STATUS_REG, BusRead 3]
     = (Inr (0x6000, 0x4000), running_1mps_low\<lparr>lastStatusReg := Some 0x6000\<rparr>,
        [BusWrite CMD_PERIOD_MEASURE_1MPS_LOW, Sleep 4500000,
         BusWrite CMD_READ_STATUS_REG, BusRead 3, BusWrite CMD_PERIOD_FETCH, BusRead 6])"
  by code_simp

text \<open>
  C1, amended. When the periodic command implied by the remembered cadence and
  repeatability is nil or differs from the command recorded in \<open>lastCmd\<close>, the fetch
  returns the error "no measurement initiated" and the log is as before: nothing was written
  to the bus, the fetch opcode included. When it is not nil and equals \<open>lastCmd\<close>, the
  fetch writes the fetch opcode. A fresh struct is a case of the first kind. The fetch,
  \<open>ReadStatusReg\<close> and the seven status accessors leave \<open>lastCmd\<close> as it is, so it
  need not be the opcode written to the bus last.
\<close>

theorem fetch_needs_recorded_session:
  "(getPeriodicMeasurementCommand (lastPeriodic v) (lastPrecision v) = None
      \<or> getPeriodicMeasurementCommand (lastPeriodic v) (lastPrecision v) \<noteq> lastCmd v
    \<longrightarrow> FetchUncompTemperatureAndHumidityWithContext e v tr = (Inl NoActiveAcquisition, v, tr))
   \<and> (getPeriodicMeasurementCommand (lastPeriodic v) (lastPrecision v) \<noteq> None
      \<and> getPeriodicMeasurementCommand (lastPeriodic v) (lastPrecision v) = lastCmd v
    \<longrightarrow> (\<exists>ext. snd (snd (FetchUncompTemperatureAndHumidityWithContext e v tr))
                = tr @ BusWrite CMD_PERIOD_FETCH # ext))
   \<and> FetchUncompTemperatureAndHumidityWithContext e NewSHT3X tr
        = (Inl NoActiveAcquisition, NewSHT3X, tr)
   \<and> lastCmd (fst (snd (FetchUncompTemperatureAndHumidityWithContext e v tr))) = lastCmd v
   \<and> lastCmd (fst (snd (ReadStatusReg e v tr))) = lastCmd v
   \<and> lastCmd (fst (snd (GetHeaterStatus e v tr))) = lastCmd v
   \<and> lastCmd (fst (snd (GetAlertPendingStatus e v tr))) = lastCmd v
   \<and> lastCmd (fst (snd (GetHumidityAlertStatus e v tr))) = lastCmd v
   \<and> lastCmd (fst (snd (GetTemperatureAlertStatus e v tr))) = lastCmd v
   \<and> lastCmd (fst (snd (CheckResetDetected e v tr))) = lastCmd v
   \<and> lastCmd (fst (snd (CheckCommandFailed e v tr))) = lastCmd v
   \<and> lastCmd (fst (snd (CheckWrittenChecksumIsIncorrect e v tr))) = lastCmd v"
proof (intro conjI impI)
  let ?cmd = "getPeriodicMeasurementCommand (lastPeriodic v) (lastPrecision v)"
  show "FetchUncompTemperatureAndHumidityWithContext e v tr = (Inl NoActiveAcquisition, v, tr)"
    if "?cmd = None \<or> ?cmd \<noteq> lastCmd v"
    using that by (auto simp: FetchUncompTemperatureAndHumidityWithContext_def Let_def)
  show "\<exists>ext. snd (snd (FetchUncompTemperatureAndHumidityWithContext e v tr))
                = tr @ BusWrite CMD_PERIOD_FETCH # ext"
    if act: "?cmd \<noteq> None \<and> ?cmd = lastCmd v"
  proof (cases "write_result e tr CMD_PERIOD_FETCH")
    case (Some err)
    with act have "FetchUncompTemperatureAndHumidityWithContext e v tr =
        (Inl (Bus err), v, tr @ [BusWrite CMD_PERIOD_FETCH])"
      by (cases "lastCmd v")
         (auto simp: FetchUncompTemperatureAndHumidityWithContext_def Let_def WriteBytes_def
           frame_of_def)
    then show ?thesis by simp
  next
    case None
    let ?tr1 = "tr @ [BusWrite CMD_PERIOD_FETCH]"
    obtain r2 tr2 where loop:
      "fetch_loop e 5 (GetWaitDuration (lastPeriodic v)) True [] ?tr1 = (r2, tr2)"
      by (cases "fetch_loop e 5 (GetWaitDuration (lastPeriodic v)) True [] ?tr1")
    from act have a: "?cmd = lastCmd v" "lastCmd v \<noteq> None" by (simp, metis)
    from fetch_active [OF a None loop]
    have "snd (snd (FetchUncompTemperatureAndHumidityWithContext e v tr)) = tr2" by simp
    moreover obtain ext where "tr2 = ?tr1 @ ext"
      using fetch_loop_extends [of e 5 "GetWaitDuration (lastPeriodic v)" True "[]" ?tr1] loop
      by auto
    ultimately show ?thesis by simp
  qed
  show "FetchUncompTemperatureAndHumidityWithContext e NewSHT3X tr
        = (Inl NoActiveAcquisition, NewSHT3X, tr)"
    by (simp add: FetchUncompTemperatureAndHumidityWithContext_def NewSHT3X_def
        getPeriodicMeasurementCommand_def enum_defs)
  show "lastCmd (fst (snd (FetchUncompTemperatureAndHumidityWithContext e v tr))) = lastCmd v"
    by (simp add: fetch_keeps)
  show "lastCmd (fst (snd (ReadStatusReg e v tr))) = lastCmd v"
    by (rule ReadStatusReg_lastCmd)
  show "lastCmd (fst (snd (GetHeaterStatus e v tr))) = lastCmd v"
    unfolding GetHeaterStatus_def by (rule status_flag_lastCmd)
  show "lastCmd (fst (snd (GetAlertPendingStatus e v tr))) = lastCmd v"
    unfolding GetAlertPendingStatus_def by (rule status_flag_lastCmd)
  show "lastCmd (fst (snd (GetHumidityAlertStatus e v tr))) = lastCmd v"
    unfolding GetHumidityAlertStatus_def by (rule status_flag_lastCmd)
  show "lastCmd (fst (snd (GetTemperatureAlertStatus e v tr))) = lastCmd v"
    unfolding GetTemperatureAlertStatus_def by (rule status_flag_lastCmd)
  show "lastCmd (fst (snd (CheckResetDetected e v tr))) = lastCmd v"
    unfolding CheckResetDetected_def by (rule status_flag_lastCmd)
  show "lastCmd (fst (snd (CheckCommandFailed e v tr))) = lastCmd v"
    unfolding CheckCommandFailed_def by (rule status_flag_lastCmd)
  show "lastCmd (fst (snd (CheckWrittenChecksumIsIncorrect e v tr))) = lastCmd v"
    unfolding CheckWrittenChecksumIsIncorrect_def by (rule status_flag_lastCmd)
qed

theorem fetch_needs_recorded_session_witness:
  "getPeriodicMeasurementCommand (lastPeriodic (running_1mps_low\<lparr>lastCmd := Some CMD_BREAK\<rparr>))
       (lastPrecision (running_1mps_low\<lparr>lastCmd := Some CMD_BREAK\<rparr>))
     \<noteq> lastCmd (running_1mps_low\<lparr>lastCmd := Some CMD_BREAK\<rparr>)
   \<and> FetchUncompTemperatureAndHumidityWithContext codes_6000_4000_env
       (running_1mps_low\<lparr>lastCmd := Some CMD_BREAK\<rparr>) []
     = (Inl NoActiveAcquisition, running_1mps_low\<lparr>lastCmd := Some CMD_BREAK\<rparr>, [])
   \<and> getPeriodicMeasurementCommand (lastPeriodic running_1mps_low) (lastPrecision running_1mps_low)
     = lastCmd running_1mps_low
   \<and> (\<exists>ext. snd (snd (FetchUncompTemperatureAndHumidityWithContext codes_6000_4000_env
         running_1mps_low [])) = [] @ BusWrite CMD_PERIOD_FETCH # ext)"
proof -
  have neq: "getPeriodicMeasurementCommand (lastPeriodic (running_1mps_low\<lparr>lastCmd := Some CMD_BREAK\<rparr>))
       (lastPrecision (running_1mps_low\<lparr>lastCmd := Some CMD_BREAK\<rparr>))
     \<noteq> lastCmd (running_1mps_low\<lparr>lastCmd := Some CMD_BREAK\<rparr>)"
    by (simp add: running_1mps_low_def getPeriodicMeasurementCommand_def enum_defs
        CMD_period CMD_other)
  have eq: "getPeriodicMeasurementCommand (lastPeriodic running_1mps_low) (lastPrecision running_1mps_low)
     = lastCmd running_1mps_low"
    "getPeriodicMeasurementCommand (lastPeriodic running_1mps_low) (lastPrecision running_1mps_low)
     \<noteq> None"
    by (simp_all add: running_1mps_low_def getPeriodicMeasurementCommand_def enum_defs)
  from neq eq
    fetch_needs_recorded_session
      [of "running_1mps_low\<lparr>lastCmd := Some CMD_BREAK\<rparr>" codes_6000_4000_env "[]"]
    fetch_needs_recorded_session [of running_1mps_low codes_6000_4000_env "[]"]
  show ?thesis by blast
qed

subsection \<open>The fetch leaves the struct as it is\<close>

text \<open>
  C10. Whatever the bus and the context do, the struct after a fetch is the struct before
  it: \<open>lastCmd\<close>, \<open>lastPeriodic\<close> and \<open>lastPrecision\<close> are unchanged, so the session
  check of a second fetch decides as that of the first did.
\<close>

theorem fetch_keeps_struct:
  "fst (snd (FetchUncompTemperatureAndHumidityWithContext e v tr)) = v"
  by (simp add: FetchUncompTemperatureAndHumidityWithContext_def Let_def
      split: prod.splits option.splits sum.splits)

theorem fetch_keeps_struct_witness:
  "fst (snd (FetchUncompTemperatureAndHumidityWithContext
       (sample_env (\<lambda>h n. Inl BusNotAcknowledging) (\<lambda>h d. None)) running_1mps_low []))
     = running_1mps_low"
  using fetch_keeps_struct
    [of "sample_env (\<lambda>h n. Inl BusNotAcknowledging) (\<lambda>h d. None)" running_1mps_low "[]"]
  by simp

end
